theory Spec2Isabelle
  imports Complex_Main "HOL-Library.Multiset"
begin

section \<open>Python strings\<close>

text \<open>
  A Python \<open>str\<close> is a sequence of Unicode code points; slicing, \<open>in\<close> and \<open>len\<close>
  count code points, not bytes. A string is therefore a list of code points, and an
  ASCII literal of the source is written \<open>ascii ''...''\<close>.
\<close>

type_synonym pystr = "nat list"

definition ascii :: "string \<Rightarrow> pystr" where
  "ascii s = map of_char s"

section \<open>The warehouse tables and SQL's three-valued values\<close>

text \<open>
  A nullable SQL column is an \<open>option\<close>: \<open>None\<close> is \<open>NULL\<close>. Dates are day
  numbers, so \<open>DATE_SUB(d, INTERVAL 1 DAY)\<close> is \<open>d - 1\<close>. The declared type of the
  amount columns is not part of the repository; amounts are exact rationals here, so
  \<open>CAST(... AS FLOAT64)\<close> is the identity and the rounding of binary floating point
  is outside this development.
\<close>

record flow_key =
  day :: "int option"
  chain :: "pystr option"
  bridge :: "pystr option"

record bt_key = flow_key +
  token_symbol :: "pystr option"

record flows_daily = bt_key +
  in_amount_usd :: "rat option"
  out_amount_usd :: "rat option"
  net_amount_usd :: "rat option"
  tx_count :: "int option"
  unique_wallets :: "int option"

record contrast_row = bt_key +
  level :: pystr
  in_usd_d :: "rat option"
  out_usd_d :: "rat option"
  net_usd_d :: "rat option"
  txs_d :: "int option"
  uw_d :: "int option"
  in_usd_p1 :: "rat option"
  out_usd_p1 :: "rat option"
  net_usd_p1 :: "rat option"
  txs_p1 :: "int option"
  uw_p1 :: "int option"
  in_usd_7avg :: "rat option"
  out_usd_7avg :: "rat option"
  net_usd_7avg :: "rat option"
  txs_7avg :: "rat option"
  uw_7avg :: "rat option"
  net_dod_pct :: "rat option"
  net_vs7d_pct :: "rat option"
  net_share_of_chain :: "rat option"

subsection \<open>Scalar functions\<close>

fun non_nulls :: "'a option list \<Rightarrow> 'a list" where
  "non_nulls [] = []"
| "non_nulls (None # vs) = non_nulls vs"
| "non_nulls (Some v # vs) = v # non_nulls vs"

text \<open>\<open>SUM\<close> and \<open>AVG\<close> skip \<open>NULL\<close>s and are \<open>NULL\<close> when nothing is left.\<close>

definition sql_sum :: "'a::comm_monoid_add option list \<Rightarrow> 'a option" where
  "sql_sum vs = (case non_nulls vs of [] \<Rightarrow> None | x # xs \<Rightarrow> Some (sum_list (x # xs)))"

definition sql_avg :: "rat option list \<Rightarrow> rat option" where
  "sql_avg vs =
     (case non_nulls vs of [] \<Rightarrow> None
      | x # xs \<Rightarrow> Some (sum_list (x # xs) / of_nat (length (x # xs))))"

definition sql_sub :: "rat option \<Rightarrow> rat option \<Rightarrow> rat option" where
  "sql_sub a b = (case (a, b) of (Some x, Some y) \<Rightarrow> Some (x - y) | _ \<Rightarrow> None)"

text \<open>\<open>NULLIF(x, 0)\<close>\<close>

definition nullif0 :: "rat option \<Rightarrow> rat option" where
  "nullif0 a = (case a of None \<Rightarrow> None | Some x \<Rightarrow> if x = 0 then None else Some x)"

text \<open>\<open>SAFE_DIVIDE(x, y)\<close>: \<open>NULL\<close> on a \<open>NULL\<close> argument and on division by zero.\<close>

definition safe_divide :: "rat option \<Rightarrow> rat option \<Rightarrow> rat option" where
  "safe_divide a b =
     (case (a, b) of
        (Some x, Some y) \<Rightarrow> if y = 0 then None else Some (x / y)
      | _ \<Rightarrow> None)"

text \<open>\<open>ABS(COALESCE(x, 0))\<close>\<close>

definition abs_coalesce0 :: "rat option \<Rightarrow> rat" where
  "abs_coalesce0 a = \<bar>case a of None \<Rightarrow> 0 | Some x \<Rightarrow> x\<bar>"

text \<open>
  \<open>a = b\<close> in a \<open>WHERE\<close> or join condition holds only when both sides are not
  \<open>NULL\<close>; \<open>GROUP BY\<close> on the other hand puts the \<open>NULL\<close>s of a column in one group.
\<close>

definition sql_eq :: "'a option \<Rightarrow> 'a option \<Rightarrow> bool" where
  "sql_eq a b = (case (a, b) of (Some x, Some y) \<Rightarrow> x = y | _ \<Rightarrow> False)"

definition group_by :: "('r \<Rightarrow> 'k) \<Rightarrow> 'r list \<Rightarrow> ('k \<times> 'r list) list" where
  "group_by key rows =
     map (\<lambda>k. (k, filter (\<lambda>r. key r = k) rows)) (remdups (map key rows))"

text \<open>
  \<open>l LEFT JOIN r ON on\<close>: every pair that satisfies the condition, and a left row
  without partner once, padded with \<open>NULL\<close>s (here \<open>None\<close> for the right row).
\<close>

definition left_join :: "('a \<Rightarrow> 'b \<Rightarrow> bool) \<Rightarrow> 'a list \<Rightarrow> 'b list \<Rightarrow> ('a \<times> 'b option) list" where
  "left_join on l r =
     concat (map (\<lambda>a. case filter (on a) r of
                         [] \<Rightarrow> [(a, None)]
                       | b # bs \<Rightarrow> map (\<lambda>b'. (a, Some b')) (b # bs)) l)"

text \<open>
  \<open>ORDER BY\<close> fixes the order of the result only as far as the sort keys differ:
  every arrangement of the rows that respects the keys is a possible result.
  \<open>before a b\<close> says that \<open>a\<close> may stand before \<open>b\<close>.
\<close>

definition order_by :: "('r \<Rightarrow> 'r \<Rightarrow> bool) \<Rightarrow> 'r list \<Rightarrow> 'r list \<Rightarrow> bool" where
  "order_by before rows out = (mset out = mset rows \<and> sorted_wrt before out)"

section \<open>The Evidence Aggregator: \<open>_fetch_contrast_rows\<close>\<close>

definition on_day :: "int \<Rightarrow> pystr \<Rightarrow> flows_daily list \<Rightarrow> flows_daily list" where
  "on_day d c flows = filter (\<lambda>r. sql_eq (day r) (Some d) \<and> sql_eq (chain r) (Some c)) flows"

text \<open>\<open>day BETWEEN DATE_SUB(d, INTERVAL 7 DAY) AND DATE_SUB(d, INTERVAL 1 DAY)\<close>\<close>

definition in_window :: "int \<Rightarrow> pystr \<Rightarrow> flows_daily list \<Rightarrow> flows_daily list" where
  "in_window d c flows =
     filter (\<lambda>r. sql_eq (chain r) (Some c) \<and>
                 (case day r of None \<Rightarrow> False | Some x \<Rightarrow> d - 7 \<le> x \<and> x \<le> d - 1)) flows"

record totals =
  t_in :: "rat option"
  t_out :: "rat option"
  t_net :: "rat option"
  t_txs :: "int option"
  t_uw :: "int option"

text \<open>The five \<open>SUM\<close>s that every aggregating subquery takes over its rows.\<close>

definition totals_of :: "flows_daily list \<Rightarrow> totals" where
  "totals_of rows =
     \<lparr> t_in = sql_sum (map in_amount_usd rows),
       t_out = sql_sum (map out_amount_usd rows),
       t_net = sql_sum (map net_amount_usd rows),
       t_txs = sql_sum (map tx_count rows),
       t_uw = sql_sum (map unique_wallets rows) \<rparr>"

definition chain_today :: "int \<Rightarrow> pystr \<Rightarrow> flows_daily list \<Rightarrow> totals" where
  "chain_today d c flows = totals_of (on_day d c flows)"

definition chain_prev1 :: "int \<Rightarrow> pystr \<Rightarrow> flows_daily list \<Rightarrow> totals" where
  "chain_prev1 d c flows = totals_of (on_day (d - 1) c flows)"

record averages =
  a_in :: "rat option"
  a_out :: "rat option"
  a_net :: "rat option"
  a_txs :: "rat option"
  a_uw :: "rat option"

definition int_avg :: "int option list \<Rightarrow> rat option" where
  "int_avg vs = sql_avg (map (map_option of_int) vs)"

text \<open>\<open>chain_7d\<close>: the inner query has one row of totals per day of the window.\<close>

definition chain_7d :: "int \<Rightarrow> pystr \<Rightarrow> flows_daily list \<Rightarrow> averages" where
  "chain_7d d c flows =
     (let per_day = map (\<lambda>(k, g). totals_of g) (group_by day (in_window d c flows))
      in \<lparr> a_in = sql_avg (map t_in per_day),
           a_out = sql_avg (map t_out per_day),
           a_net = sql_avg (map t_net per_day),
           a_txs = int_avg (map t_txs per_day),
           a_uw = int_avg (map t_uw per_day) \<rparr>)"

definition chain_ctx :: "int \<Rightarrow> pystr \<Rightarrow> flows_daily list \<Rightarrow> contrast_row" where
  "chain_ctx d c flows =
     (let t = chain_today d c flows; p = chain_prev1 d c flows; s = chain_7d d c flows
      in \<lparr> day = Some d, chain = Some c,
           bridge = Some (ascii ''_TOTAL''), token_symbol = Some (ascii ''_ALL''),
           level = ascii ''_CHAIN'',
           in_usd_d = t_in t, out_usd_d = t_out t, net_usd_d = t_net t,
           txs_d = t_txs t, uw_d = t_uw t,
           in_usd_p1 = t_in p, out_usd_p1 = t_out p, net_usd_p1 = t_net p,
           txs_p1 = t_txs p, uw_p1 = t_uw p,
           in_usd_7avg = a_in s, out_usd_7avg = a_out s, net_usd_7avg = a_net s,
           txs_7avg = a_txs s, uw_7avg = a_uw s,
           net_dod_pct = safe_divide (sql_sub (t_net t) (t_net p)) (nullif0 (t_net p)),
           net_vs7d_pct = safe_divide (sql_sub (t_net t) (a_net s)) (nullif0 (a_net s)),
           net_share_of_chain = None \<rparr>)"

text \<open>
  The bridge-level subqueries group by \<open>(bridge, token_symbol)\<close>. A group is kept as
  its key and its totals.
\<close>

type_synonym bt = "pystr option \<times> pystr option"

definition bt_of :: "flows_daily \<Rightarrow> bt" where
  "bt_of r = (bridge r, token_symbol r)"

definition bridge_today :: "int \<Rightarrow> pystr \<Rightarrow> flows_daily list \<Rightarrow> (bt \<times> totals) list" where
  "bridge_today d c flows = map (\<lambda>(k, g). (k, totals_of g)) (group_by bt_of (on_day d c flows))"

definition bridge_prev1 :: "int \<Rightarrow> pystr \<Rightarrow> flows_daily list \<Rightarrow> (bt \<times> totals) list" where
  "bridge_prev1 d c flows =
     map (\<lambda>(k, g). (k, totals_of g)) (group_by bt_of (on_day (d - 1) c flows))"

text \<open>
  \<open>bridge_7d\<close>: the inner query groups by \<open>(bridge, token_symbol)\<close> only, so it has
  one row per pair, holding the totals over the whole window; the outer \<open>AVG\<close> per pair
  is taken over that single row.
\<close>

definition bridge_7d :: "int \<Rightarrow> pystr \<Rightarrow> flows_daily list \<Rightarrow> (bt \<times> averages) list" where
  "bridge_7d d c flows =
     (let inner = map (\<lambda>(k, g). (k, totals_of g)) (group_by bt_of (in_window d c flows))
      in map (\<lambda>(k, g). (k, \<lparr> a_in = sql_avg (map (t_in \<circ> snd) g),
                             a_out = sql_avg (map (t_out \<circ> snd) g),
                             a_net = sql_avg (map (t_net \<circ> snd) g),
                             a_txs = None, a_uw = None \<rparr>))
             (group_by fst inner))"

definition chain_total_net :: "(bt \<times> totals) list \<Rightarrow> rat option" where
  "chain_total_net bts = sql_sum (map (t_net \<circ> snd) bts)"

text \<open>\<open>USING(bridge, token_symbol)\<close>\<close>

definition using_bt :: "bt \<times> 'a \<Rightarrow> bt \<times> 'b \<Rightarrow> bool" where
  "using_bt l r = (sql_eq (fst (fst l)) (fst (fst r)) \<and> sql_eq (snd (fst l)) (snd (fst r)))"

definition bridge_row ::
  "int \<Rightarrow> pystr \<Rightarrow> rat option \<Rightarrow>
   ((bt \<times> totals) \<times> (bt \<times> totals) option) \<times> (bt \<times> averages) option \<Rightarrow> contrast_row" where
  "bridge_row d c chain_net_d j =
     (let k = fst (fst (fst j)); t = snd (fst (fst j));
          p1 = (\<lambda>f. case snd (fst j) of None \<Rightarrow> None | Some p \<Rightarrow> f (snd p));
          s7 = (\<lambda>f. case snd j of None \<Rightarrow> None | Some s \<Rightarrow> f (snd s))
      in \<lparr> day = Some d, chain = Some c, bridge = fst k, token_symbol = snd k,
           level = ascii ''_BRIDGE'',
           in_usd_d = t_in t, out_usd_d = t_out t, net_usd_d = t_net t,
           txs_d = t_txs t, uw_d = t_uw t,
           in_usd_p1 = p1 t_in, out_usd_p1 = p1 t_out, net_usd_p1 = p1 t_net,
           txs_p1 = None, uw_p1 = None,
           in_usd_7avg = s7 a_in, out_usd_7avg = s7 a_out, net_usd_7avg = s7 a_net,
           txs_7avg = None, uw_7avg = None,
           net_dod_pct = safe_divide (sql_sub (t_net t) (p1 t_net)) (nullif0 (p1 t_net)),
           net_vs7d_pct = safe_divide (sql_sub (t_net t) (s7 a_net)) (nullif0 (s7 a_net)),
           net_share_of_chain = safe_divide (t_net t) (nullif0 chain_net_d) \<rparr>)"

definition bridge_ctx :: "int \<Rightarrow> pystr \<Rightarrow> flows_daily list \<Rightarrow> contrast_row list" where
  "bridge_ctx d c flows =
     (let bt = bridge_today d c flows
      in map (bridge_row d c (chain_total_net bt))
             (left_join (\<lambda>l r. using_bt (fst l) r)
                (left_join using_bt bt (bridge_prev1 d c flows))
                (bridge_7d d c flows)))"

text \<open>
  \<open>ORDER BY CASE WHEN level='_CHAIN' THEN 0 ELSE 1 END, ABS(COALESCE(net_usd_d,0)) DESC\<close>
\<close>

definition level_rank :: "contrast_row \<Rightarrow> nat" where
  "level_rank r = (if level r = ascii ''_CHAIN'' then 0 else 1)"

definition contrast_before :: "contrast_row \<Rightarrow> contrast_row \<Rightarrow> bool" where
  "contrast_before a b =
     (level_rank a < level_rank b \<or>
      (level_rank a = level_rank b \<and>
       abs_coalesce0 (net_usd_d a) \<ge> abs_coalesce0 (net_usd_d b)))"

text \<open>The second sort key alone, as a relation between rows.\<close>

definition by_abs_net :: "contrast_row \<Rightarrow> contrast_row \<Rightarrow> bool" where
  "by_abs_net a b = (abs_coalesce0 (net_usd_d a) \<ge> abs_coalesce0 (net_usd_d b))"

text \<open>
  \<open>fetch_contrast_rows flows d c out\<close>: \<open>out\<close> is a list of rows that the query may
  return for day \<open>d\<close> and chain \<open>c\<close> on the table \<open>flows\<close>.
\<close>

definition fetch_contrast_rows ::
  "flows_daily list \<Rightarrow> int \<Rightarrow> pystr \<Rightarrow> contrast_row list \<Rightarrow> bool" where
  "fetch_contrast_rows flows d c out =
     order_by contrast_before (chain_ctx d c flows # bridge_ctx d c flows) out"

subsection \<open>A small table\<close>

text \<open>
  Three bridges on day 10, two of them with the same absolute net flow, and two rows of
  the day before. The rows below are what the query computes from it.
\<close>

definition flow ::
  "int \<Rightarrow> string \<Rightarrow> string \<Rightarrow> string \<Rightarrow> rat \<Rightarrow> rat \<Rightarrow> rat \<Rightarrow> int \<Rightarrow> int \<Rightarrow> flows_daily" where
  "flow d c b t i out n tx uw =
     \<lparr> day = Some d, chain = Some (ascii c), bridge = Some (ascii b),
       token_symbol = Some (ascii t),
       in_amount_usd = Some i, out_amount_usd = Some out, net_amount_usd = Some n,
       tx_count = Some tx, unique_wallets = Some uw \<rparr>"

definition example_flows :: "flows_daily list" where
  "example_flows =
     [ flow 10 ''ethereum'' ''across'' ''USDC'' 100 60 40 3 2,
       flow 10 ''ethereum'' ''hop'' ''ETH'' 10 50 (-40) 1 1,
       flow 10 ''ethereum'' ''stargate'' ''USDT'' 20 0 20 2 2,
       flow 9 ''ethereum'' ''across'' ''USDC'' 50 30 20 5 4,
       flow 9 ''ethereum'' ''hop'' ''ETH'' 5 5 0 1 1 ]"

definition example_chain :: contrast_row where
  "example_chain =
     \<lparr> day = Some 10, chain = Some (ascii ''ethereum''),
       bridge = Some (ascii ''_TOTAL''), token_symbol = Some (ascii ''_ALL''),
       level = ascii ''_CHAIN'',
       in_usd_d = Some 130, out_usd_d = Some 110, net_usd_d = Some 20,
       txs_d = Some 6, uw_d = Some 5,
       in_usd_p1 = Some 55, out_usd_p1 = Some 35, net_usd_p1 = Some 20,
       txs_p1 = Some 6, uw_p1 = Some 5,
       in_usd_7avg = Some 55, out_usd_7avg = Some 35, net_usd_7avg = Some 20,
       txs_7avg = Some 6, uw_7avg = Some 5,
       net_dod_pct = Some 0, net_vs7d_pct = Some 0, net_share_of_chain = None \<rparr>"

definition example_across :: contrast_row where
  "example_across =
     \<lparr> day = Some 10, chain = Some (ascii ''ethereum''),
       bridge = Some (ascii ''across''), token_symbol = Some (ascii ''USDC''),
       level = ascii ''_BRIDGE'',
       in_usd_d = Some 100, out_usd_d = Some 60, net_usd_d = Some 40,
       txs_d = Some 3, uw_d = Some 2,
       in_usd_p1 = Some 50, out_usd_p1 = Some 30, net_usd_p1 = Some 20,
       txs_p1 = None, uw_p1 = None,
       in_usd_7avg = Some 50, out_usd_7avg = Some 30, net_usd_7avg = Some 20,
       txs_7avg = None, uw_7avg = None,
       net_dod_pct = Some 1, net_vs7d_pct = Some 1, net_share_of_chain = Some 2 \<rparr>"

definition example_hop :: contrast_row where
  "example_hop =
     \<lparr> day = Some 10, chain = Some (ascii ''ethereum''),
       bridge = Some (ascii ''hop''), token_symbol = Some (ascii ''ETH''),
       level = ascii ''_BRIDGE'',
       in_usd_d = Some 10, out_usd_d = Some 50, net_usd_d = Some (-40),
       txs_d = Some 1, uw_d = Some 1,
       in_usd_p1 = Some 5, out_usd_p1 = Some 5, net_usd_p1 = Some 0,
       txs_p1 = None, uw_p1 = None,
       in_usd_7avg = Some 5, out_usd_7avg = Some 5, net_usd_7avg = Some 0,
       txs_7avg = None, uw_7avg = None,
       net_dod_pct = None, net_vs7d_pct = None, net_share_of_chain = Some (-2) \<rparr>"

definition example_stargate :: contrast_row where
  "example_stargate =
     \<lparr> day = Some 10, chain = Some (ascii ''ethereum''),
       bridge = Some (ascii ''stargate''), token_symbol = Some (ascii ''USDT''),
       level = ascii ''_BRIDGE'',
       in_usd_d = Some 20, out_usd_d = Some 0, net_usd_d = Some 20,
       txs_d = Some 2, uw_d = Some 2,
       in_usd_p1 = None, out_usd_p1 = None, net_usd_p1 = None,
       txs_p1 = None, uw_p1 = None,
       in_usd_7avg = None, out_usd_7avg = None, net_usd_7avg = None,
       txs_7avg = None, uw_7avg = None,
       net_dod_pct = None, net_vs7d_pct = None, net_share_of_chain = Some 1 \<rparr>"

definition example_out :: "contrast_row list" where
  "example_out = [example_chain, example_across, example_hop, example_stargate]"

definition example_out_swapped :: "contrast_row list" where
  "example_out_swapped = [example_chain, example_hop, example_across, example_stargate]"

subsection \<open>A steady bridge\<close>

text \<open>One bridge with a net of 10 on each of three days in a row.\<close>

definition steady_flows :: "flows_daily list" where
  "steady_flows =
     [ flow 8 ''ethereum'' ''across'' ''USDC'' 30 20 10 2 2,
       flow 9 ''ethereum'' ''across'' ''USDC'' 25 15 10 3 2,
       flow 10 ''ethereum'' ''across'' ''USDC'' 40 30 10 4 3 ]"

text \<open>
  The 7-day average of the glossary for one \<open>(bridge, token)\<close> pair: the
  arithmetic mean of the pair's daily net totals over the days of the window.
\<close>

definition spec_pair_7avg_net :: "int \<Rightarrow> pystr \<Rightarrow> bt \<Rightarrow> flows_daily list \<Rightarrow> rat option" where
  "spec_pair_7avg_net d c k flows =
     sql_avg (map (\<lambda>(dy, g). sql_sum (map net_amount_usd g))
                (group_by day (filter (\<lambda>r. bt_of r = k) (in_window d c flows))))"

section \<open>The other two queries\<close>

text \<open>
  \<open>ORDER BY ... DESC\<close> puts \<open>NULL\<close> last. \<open>desc_ge a b\<close>: the key \<open>a\<close> sorts no later
  than the key \<open>b\<close>.
\<close>

fun desc_ge :: "rat option \<Rightarrow> rat option \<Rightarrow> bool" where
  "desc_ge a None = True"
| "desc_ge None (Some y) = False"
| "desc_ge (Some x) (Some y) = (x \<ge> y)"

definition sql_abs :: "rat option \<Rightarrow> rat option" where
  "sql_abs a = map_option abs a"

text \<open>
  \<open>ORDER BY ... LIMIT n\<close> returns the first \<open>n\<close> rows of some arrangement that
  respects the sort keys: \<open>out\<close> is sorted, taken from \<open>rows\<close>, as long as the limit and
  the table allow, and no row left out would have to stand before a row of \<open>out\<close>.
\<close>

definition order_by_limit ::
  "('r \<Rightarrow> 'r \<Rightarrow> bool) \<Rightarrow> nat \<Rightarrow> 'r list \<Rightarrow> 'r list \<Rightarrow> bool" where
  "order_by_limit before n rows out =
     (mset out \<subseteq># mset rows \<and> length out = min n (length rows) \<and> sorted_wrt before out \<and>
      (\<forall>x\<in>set out. \<forall>y\<in>#(mset rows - mset out). before x y))"

subsection \<open>The anomaly view \<open>bridge_flows_anoms\<close>\<close>

record anoms = flow_key +
  zscore_30d :: "rat option"
  net_usd :: "rat option"
  is_anom_bridge :: "bool option"

text \<open>\<open>WHERE day = DATE(@d) AND chain = @c AND is_anom_bridge\<close>\<close>

definition anom_where :: "int \<Rightarrow> pystr \<Rightarrow> anoms \<Rightarrow> bool" where
  "anom_where d c r =
     (sql_eq (day r) (Some d) \<and> sql_eq (chain r) (Some c) \<and> is_anom_bridge r = Some True)"

text \<open>\<open>ORDER BY ABS(zscore_30d) DESC, ABS(net_usd) DESC\<close>\<close>

definition anom_before :: "anoms \<Rightarrow> anoms \<Rightarrow> bool" where
  "anom_before a b =
     (let za = sql_abs (zscore_30d a); zb = sql_abs (zscore_30d b)
      in (desc_ge za zb \<and> za \<noteq> zb) \<or>
         (za = zb \<and> desc_ge (sql_abs (net_usd a)) (sql_abs (net_usd b))))"

text \<open>\<open>anoms_query view d c out\<close>: the query on the view may return the rows \<open>out\<close>.\<close>

definition anoms_query :: "anoms list \<Rightarrow> int \<Rightarrow> pystr \<Rightarrow> anoms list \<Rightarrow> bool" where
  "anoms_query view d c out = order_by_limit anom_before 12 (filter (anom_where d c) view) out"

subsection \<open>The query of \<open>_fetch_bridge_evidence\<close>\<close>

text \<open>\<open>ROUND(x, 2)\<close> rounds halfway cases away from zero.\<close>

definition sql_round2 :: "rat option \<Rightarrow> rat option" where
  "sql_round2 a =
     map_option (\<lambda>x. if x \<ge> 0 then of_int \<lfloor>x * 100 + 1 / 2\<rfloor> / 100
                     else - (of_int \<lfloor>- x * 100 + 1 / 2\<rfloor> / 100)) a"

text \<open>
  \<open>bridges\<close> is the optional filter list; the clause \<open>AND bridge IN UNNEST(@bridges)\<close>
  is added only for a list that is not empty.
\<close>

definition evidence_where ::
  "int \<Rightarrow> pystr \<Rightarrow> pystr option list option \<Rightarrow> flows_daily \<Rightarrow> bool" where
  "evidence_where d c bridges r =
     (sql_eq (day r) (Some d) \<and> sql_eq (chain r) (Some c) \<and>
      (case bridges of
         None \<Rightarrow> True
       | Some [] \<Rightarrow> True
       | Some (b # bs) \<Rightarrow> list_ex (\<lambda>x. sql_eq (bridge r) x) (b # bs)))"

definition evidence_groups ::
  "flows_daily list \<Rightarrow> int \<Rightarrow> pystr \<Rightarrow> pystr option list option \<Rightarrow> (bt \<times> totals) list" where
  "evidence_groups flows d c bridges =
     map (\<lambda>(k, g). (k, \<lparr> t_in = sql_round2 (sql_sum (map in_amount_usd g)),
                          t_out = sql_round2 (sql_sum (map out_amount_usd g)),
                          t_net = sql_round2 (sql_sum (map net_amount_usd g)),
                          t_txs = sql_sum (map tx_count g),
                          t_uw = sql_sum (map unique_wallets g) \<rparr>))
         (group_by bt_of (filter (evidence_where d c bridges) flows))"

text \<open>\<open>ORDER BY ABS(net_usd) DESC\<close>\<close>

definition evidence_before :: "bt \<times> totals \<Rightarrow> bt \<times> totals \<Rightarrow> bool" where
  "evidence_before a b = desc_ge (sql_abs (t_net (snd a))) (sql_abs (t_net (snd b)))"

definition bridge_evidence_query ::
  "flows_daily list \<Rightarrow> int \<Rightarrow> pystr \<Rightarrow> pystr option list option \<Rightarrow> nat \<Rightarrow>
   (bt \<times> totals) list \<Rightarrow> bool" where
  "bridge_evidence_query flows d c bridges limit out =
     order_by_limit evidence_before limit (evidence_groups flows d c bridges) out"

subsection \<open>A small anomaly view\<close>

text \<open>
  Thirteen flagged bridges on day 10, one that is not flagged and one row of another day.
\<close>

definition anom :: "int \<Rightarrow> string \<Rightarrow> rat \<Rightarrow> rat \<Rightarrow> bool \<Rightarrow> anoms" where
  "anom d b z n flagged =
     \<lparr> day = Some d, chain = Some (ascii ''ethereum''), bridge = Some (ascii b),
       zscore_30d = Some z, net_usd = Some n, is_anom_bridge = Some flagged \<rparr>"

definition example_view :: "anoms list" where
  "example_view =
     [ anom 10 ''hop'' (- 3) 500 True,
       anom 10 ''synapse'' (- 4) 5 True,
       anom 10 ''across'' 4 (- 20) True,
       anom 10 ''portal'' 1 900 False,
       anom 9 ''hop'' 9 1 True,
       anom 10 ''stargate'' 2 70 True,
       anom 10 ''wormhole'' 13 10 True,
       anom 10 ''layerzero'' (- 12) 10 True,
       anom 10 ''axelar'' 11 10 True,
       anom 10 ''connext'' (- 10) 10 True,
       anom 10 ''debridge'' 9 10 True,
       anom 10 ''orbiter'' (- 8) 10 True,
       anom 10 ''hyperlane'' 7 10 True,
       anom 10 ''multichain'' (- 6) 10 True,
       anom 10 ''celer'' 5 10 True ]"

definition example_ranked :: "anoms list" where
  "example_ranked =
     [ anom 10 ''wormhole'' 13 10 True,
       anom 10 ''layerzero'' (- 12) 10 True,
       anom 10 ''axelar'' 11 10 True,
       anom 10 ''connext'' (- 10) 10 True,
       anom 10 ''debridge'' 9 10 True,
       anom 10 ''orbiter'' (- 8) 10 True,
       anom 10 ''hyperlane'' 7 10 True,
       anom 10 ''multichain'' (- 6) 10 True,
       anom 10 ''celer'' 5 10 True,
       anom 10 ''across'' 4 (- 20) True,
       anom 10 ''synapse'' (- 4) 5 True,
       anom 10 ''hop'' (- 3) 500 True ]"

section \<open>Python values\<close>

text \<open>
  The values that travel through the service: what a BigQuery row holds, what a JSON
  request body holds, and lists and dicts of those. A dict is an association list in
  insertion order. A float is its exact value.
\<close>

datatype pyval =
    PNone
  | PBool bool
  | PInt int
  | PFloat rat
  | PStr pystr
  | PDate int
  | PList "pyval list"
  | PDict "(pystr \<times> pyval) list"

type_synonym pydict = "(pystr \<times> pyval) list"

datatype exn = AttributeError | RuntimeError | TypeError | ExternalError pystr

text \<open>Truth value testing, as in \<open>if v:\<close> and \<open>v or default\<close>.\<close>

fun truthy :: "pyval \<Rightarrow> bool" where
  "truthy PNone = False"
| "truthy (PBool b) = b"
| "truthy (PInt i) = (i \<noteq> 0)"
| "truthy (PFloat x) = (x \<noteq> 0)"
| "truthy (PStr s) = (s \<noteq> [])"
| "truthy (PDate d) = True"
| "truthy (PList xs) = (xs \<noteq> [])"
| "truthy (PDict kvs) = (kvs \<noteq> [])"

text \<open>\<open>d.get(k, dflt)\<close>\<close>

definition dict_get :: "pydict \<Rightarrow> pystr \<Rightarrow> pyval \<Rightarrow> pyval" where
  "dict_get d k dflt = (case map_of d k of None \<Rightarrow> dflt | Some v \<Rightarrow> v)"

text \<open>
  What the interpreter contributes to the text of a value and is not code of the
  repository: the \<open>repr\<close> of a float, the ISO form of a date, and the \<open>str\<close> of a list
  or dict.
\<close>

record runtime =
  float_repr :: "rat \<Rightarrow> pystr"
  date_iso :: "int \<Rightarrow> pystr"
  container_str :: "pyval \<Rightarrow> pystr"

subsection \<open>String operations\<close>

definition digit :: "nat \<Rightarrow> nat" where
  "digit n = 48 + n"

function str_nat :: "nat \<Rightarrow> pystr" where
  "str_nat n = (if n < 10 then [digit n] else str_nat (n div 10) @ [digit (n mod 10)])"
  by pat_completeness auto
termination
  by (relation "measure id") auto

definition str_int :: "int \<Rightarrow> pystr" where
  "str_int i = (if i < 0 then 45 # str_nat (nat (- i)) else str_nat (nat i))"

text \<open>\<open>str(v)\<close>, which is what an f-string inserts.\<close>

fun py_str :: "runtime \<Rightarrow> pyval \<Rightarrow> pystr" where
  "py_str rt PNone = ascii ''None''"
| "py_str rt (PBool b) = (if b then ascii ''True'' else ascii ''False'')"
| "py_str rt (PInt i) = str_int i"
| "py_str rt (PFloat x) = float_repr rt x"
| "py_str rt (PStr s) = s"
| "py_str rt (PDate d) = date_iso rt d"
| "py_str rt (PList xs) = container_str rt (PList xs)"
| "py_str rt (PDict kvs) = container_str rt (PDict kvs)"

text \<open>\<open>sep.join(xs)\<close>\<close>

fun py_join :: "pystr \<Rightarrow> pystr list \<Rightarrow> pystr" where
  "py_join sep [] = []"
| "py_join sep [x] = x"
| "py_join sep (x # y # ys) = x @ sep @ py_join sep (y # ys)"

text \<open>
  \<open>s.lower()\<close>. ASCII letters are exact, and so are the only two code points beyond
  ASCII whose lower case contains an ASCII character (U+0130 and U+212A). Every other
  code point is left as it is: Python maps the cased ones among them to code points
  beyond ASCII that occur in none of the keywords, so a membership test of a keyword
  in the lowered text gives the same answer.
\<close>

definition lower_cp :: "nat \<Rightarrow> nat list" where
  "lower_cp c =
     (if 65 \<le> c \<and> c \<le> 90 then [c + 32]
      else if c = 304 then [105, 775]
      else if c = 8490 then [107]
      else [c])"

definition py_lower :: "pystr \<Rightarrow> pystr" where
  "py_lower s = concat (map lower_cp s)"

text \<open>\<open>p in s\<close> for strings: \<open>p\<close> occurs in \<open>s\<close> as a contiguous piece.\<close>

fun starts_with :: "pystr \<Rightarrow> pystr \<Rightarrow> bool" where
  "starts_with s [] = True"
| "starts_with [] (p # ps) = False"
| "starts_with (c # cs) (p # ps) = (c = p \<and> starts_with cs ps)"

fun py_in :: "pystr \<Rightarrow> pystr \<Rightarrow> bool" where
  "py_in p [] = (p = [])"
| "py_in p (c # cs) = (starts_with (c # cs) p \<or> py_in p cs)"

text \<open>\<open>s.strip()\<close> removes the code points for which \<open>str.isspace\<close> holds.\<close>

definition py_isspace :: "nat \<Rightarrow> bool" where
  "py_isspace c =
     ((9 \<le> c \<and> c \<le> 13) \<or> (28 \<le> c \<and> c \<le> 32) \<or> c = 133 \<or> c = 160 \<or> c = 5760 \<or>
      (8192 \<le> c \<and> c \<le> 8202) \<or> c = 8232 \<or> c = 8233 \<or> c = 8239 \<or> c = 8287 \<or> c = 12288)"

definition py_strip :: "pystr \<Rightarrow> pystr" where
  "py_strip s = rev (dropWhile py_isspace (rev (dropWhile py_isspace s)))"

section \<open>The attestation publisher: \<open>attest.py\<close>\<close>

definition bad :: "pystr list" where
  "bad = [ascii ''anomal'', ascii ''abnormal'', ascii ''irregular'',
          [24322, 24120], [26174, 33879]]"

definition good :: "pystr list" where
  "good = [ascii ''no anomaly'', ascii ''no significant'',
           [26410, 21457, 29616, 26174, 33879, 24322, 24120]]"

definition decide_has_anomaly :: "pystr \<Rightarrow> bool" where
  "decide_has_anomaly summary =
     (if summary = [] then False
      else let s = py_lower summary
           in if list_ex (\<lambda>g. py_in g s) good then False
              else if list_ex (\<lambda>b. py_in b s) bad then True
              else False)"

text \<open>
  \<open>keccak32\<close>: the hash itself is the library's (\<open>Web3.keccak\<close>) and is a parameter.
\<close>

definition keccak32 :: "(pystr \<Rightarrow> 'h) \<Rightarrow> pystr option \<Rightarrow> 'h" where
  "keccak32 keccak txt = keccak (case txt of None \<Rightarrow> [] | Some t \<Rightarrow> t)"

text \<open>\<open>len(v)\<close> of a parsed JSON value; a number, a boolean and \<open>None\<close> have no length.\<close>

fun py_len :: "pyval \<Rightarrow> exn + nat" where
  "py_len (PStr s) = Inr (length s)"
| "py_len (PList xs) = Inr (length xs)"
| "py_len (PDict kvs) = Inr (length kvs)"
| "py_len v = Inl TypeError"

text \<open>A row of \<open>daily_briefings\<close> as the publisher reads it.\<close>

record briefing =
  briefing_day :: pystr
  model :: "pystr option"
  summary_text :: "pystr option"
  source_rows_json :: "pystr option"

record 'h attestation =
  att_day :: pystr
  summaryHash :: 'h
  hasAnomaly :: bool
  evidenceRows :: nat
  att_model :: "pystr option"
  uri :: pystr

text \<open>
  The body of the loop in \<open>main\<close>, up to the arguments of \<open>publish\<close>.
  \<open>json_loads\<close> is the library's parser: it returns the parsed value or raises.
\<close>

definition attest_fields ::
  "(pystr \<Rightarrow> 'h) \<Rightarrow> (pystr \<Rightarrow> exn + pyval) \<Rightarrow> briefing \<Rightarrow> 'h attestation" where
  "attest_fields keccak json_loads r =
     (let summary = (case summary_text r of None \<Rightarrow> [] | Some s \<Rightarrow> s);
          src_json = (case source_rows_json r of
                        None \<Rightarrow> ascii ''[]''
                      | Some s \<Rightarrow> if s = [] then ascii ''[]'' else s);
          ev_rows = (case json_loads src_json of
                       Inl e \<Rightarrow> 0
                     | Inr v \<Rightarrow> (case py_len v of Inl e \<Rightarrow> 0 | Inr n \<Rightarrow> n));
          has_anom = decide_has_anomaly summary;
          h = keccak32 keccak (Some summary)
      in \<lparr> att_day = briefing_day r, summaryHash = h, hasAnomaly = has_anom,
           evidenceRows = ev_rows, att_model = model r, uri = [] \<rparr>)"

subsection \<open>A briefing row with a cut snapshot\<close>

definition example_loads :: "pystr \<Rightarrow> exn + pyval" where
  "example_loads s =
     (if s = ascii ''[]'' then Inr (PList [])
      else if s = ascii ''[1, 2]'' then Inr (PList [PInt 1, PInt 2])
      else if s = ascii ''7'' then Inr (PInt 7)
      else Inl (ExternalError (ascii ''JSONDecodeError'')))"

definition example_briefing :: briefing where
  "example_briefing =
     \<lparr> briefing_day = ascii ''2024-01-15'', model = Some (ascii ''gemini-1.5-flash-002''),
       summary_text = None, source_rows_json = Some (ascii ''[1, 2'') \<rparr>"

section \<open>The service: \<open>cloudrun/main.py\<close>\<close>

subsection \<open>\<open>json.dumps(v, ensure_ascii=False, default=str)\<close>\<close>

definition hex_digit :: "nat \<Rightarrow> nat" where
  "hex_digit n = (if n < 10 then 48 + n else 87 + n)"

text \<open>
  With \<open>ensure_ascii=False\<close> only the quote, the backslash and the control characters
  below U+0020 are escaped.
\<close>

definition json_escape_cp :: "nat \<Rightarrow> pystr" where
  "json_escape_cp c =
     (if c = 34 then [92, 34]
      else if c = 92 then [92, 92]
      else if c = 10 then [92, 110]
      else if c = 13 then [92, 114]
      else if c = 9 then [92, 116]
      else if c = 8 then [92, 98]
      else if c = 12 then [92, 102]
      else if c < 32 then [92, 117, 48, 48, hex_digit (c div 16), hex_digit (c mod 16)]
      else [c])"

definition json_string :: "pystr \<Rightarrow> pystr" where
  "json_string s = [34] @ concat (map json_escape_cp s) @ [34]"

text \<open>A date is not a JSON type: \<open>default=str\<close> turns it into the string of its ISO form.\<close>

fun json_dumps :: "runtime \<Rightarrow> pyval \<Rightarrow> pystr" where
  "json_dumps rt PNone = ascii ''null''"
| "json_dumps rt (PBool b) = (if b then ascii ''true'' else ascii ''false'')"
| "json_dumps rt (PInt i) = str_int i"
| "json_dumps rt (PFloat x) = float_repr rt x"
| "json_dumps rt (PStr s) = json_string s"
| "json_dumps rt (PDate d) = json_string (date_iso rt d)"
| "json_dumps rt (PList xs) =
     ascii ''['' @ py_join (ascii '', '') (map (json_dumps rt) xs) @ ascii '']''"
| "json_dumps rt (PDict kvs) =
     ascii ''{'' @
     py_join (ascii '', '') (map (\<lambda>kv. json_string (fst kv) @ ascii '': '' @ json_dumps rt (snd kv)) kvs) @
     ascii ''}''"

subsection \<open>\<open>_merge_briefing\<close>: the snapshot that is stored\<close>

text \<open>
  The value bound to \<open>@src\<close>: a string is cut as it is, anything else is serialised
  first. The slice \<open>[:900000]\<close> keeps the first 900000 code points.
\<close>

definition merge_briefing_src :: "runtime \<Rightarrow> pyval \<Rightarrow> pystr" where
  "merge_briefing_src rt rows_or_json =
     (case rows_or_json of
        PStr s \<Rightarrow> take 900000 s
      | _ \<Rightarrow> take 900000 (json_dumps rt rows_or_json))"

text \<open>
  A scan of a JSON text for its nesting: depth of open arrays and objects, whether the
  scan is inside a string, and whether the last character was a backslash in a string.
  Every well-formed JSON text ends the scan outside a string at depth 0, so a text that
  does not is not valid JSON.
\<close>

fun json_scan :: "nat \<times> bool \<times> bool \<Rightarrow> pystr \<Rightarrow> nat \<times> bool \<times> bool" where
  "json_scan st [] = st"
| "json_scan (depth, in_str, esc) (c # cs) =
     json_scan
       (if in_str then
          (if esc then (depth, True, False)
           else if c = 92 then (depth, True, True)
           else if c = 34 then (depth, False, False)
           else (depth, True, False))
        else if c = 34 then (depth, True, False)
        else if c = 91 \<or> c = 123 then (depth + 1, False, False)
        else if c = 93 \<or> c = 125 then (depth - 1, False, False)
        else (depth, False, False)) cs"

definition json_closed :: "pystr \<Rightarrow> bool" where
  "json_closed s = (json_scan (0, False, False) s = (0, False, False))"

subsection \<open>\<open>_fallback_summary\<close>\<close>

definition fallback_item :: "runtime \<Rightarrow> pydict \<Rightarrow> pystr" where
  "fallback_item rt r =
     ascii ''- '' @ py_str rt (dict_get r (ascii ''chain'') PNone) @ ascii ''/'' @
     py_str rt (dict_get r (ascii ''bridge'') PNone) @ ascii '' '' @
     py_str rt (dict_get r (ascii ''token_symbol'') PNone) @ ascii '': '' @
     ascii ''net'' @ [8776] @
     py_str rt (dict_get r (ascii ''net_usd'') (dict_get r (ascii ''net_amount_usd'') (PInt 0))) @
     ascii '', '' @
     ascii ''tx='' @ py_str rt (dict_get r (ascii ''tx_count'') (PInt 0)) @
     ascii '', wallets='' @ py_str rt (dict_get r (ascii ''unique_wallets'') (PInt 0))"

definition fallback_tail :: pystr where
  "fallback_tail =
     ascii ''Action: keep watching major bridges/tokens; set threshold alerts for large addresses.''"

definition fallback_summary :: "runtime \<Rightarrow> pystr \<Rightarrow> pydict list \<Rightarrow> pystr \<Rightarrow> pystr" where
  "fallback_summary rt day_iso rows reason =
     (let head = ascii ''[Cross-Chain Flow Briefing | '' @ day_iso @ ascii '']'' @ [10] @
                 ascii ''Conclusion: '' @ reason @ ascii ''.'';
          body = (if rows \<noteq> []
                  then ascii ''Top flows:'' @ [10] @
                       py_join [10] (map (fallback_item rt) (take 5 rows))
                  else ascii ''Top flows: none.'')
      in py_join [10] [head, body, fallback_tail])"

subsection \<open>The rows that \<open>_fetch_bridge_evidence\<close> returns\<close>

definition opt_val :: "('a \<Rightarrow> pyval) \<Rightarrow> 'a option \<Rightarrow> pyval" where
  "opt_val f a = (case a of None \<Rightarrow> PNone | Some x \<Rightarrow> f x)"

text \<open>\<open>dict(r)\<close> for a row of the evidence query, the columns in the order of the \<open>SELECT\<close>.\<close>

definition evidence_dict :: "int \<Rightarrow> pystr \<Rightarrow> bt \<times> totals \<Rightarrow> pydict" where
  "evidence_dict d c g =
     [(ascii ''chain'', PStr c), (ascii ''day'', PDate d),
      (ascii ''bridge'', opt_val PStr (fst (fst g))),
      (ascii ''token_symbol'', opt_val PStr (snd (fst g))),
      (ascii ''in_usd'', opt_val PFloat (t_in (snd g))),
      (ascii ''out_usd'', opt_val PFloat (t_out (snd g))),
      (ascii ''net_usd'', opt_val PFloat (t_net (snd g))),
      (ascii ''tx_count'', opt_val PInt (t_txs (snd g))),
      (ascii ''unique_wallets'', opt_val PInt (t_uw (snd g)))]"

subsection \<open>\<open>_fetch_anom_bridges\<close>\<close>

text \<open>
  The argument is what running the query gives: the rows, or the exception raised when
  the view does not exist or the query fails. The \<open>except\<close> clause answers every
  exception with the empty list.
\<close>

definition fetch_anom_bridges :: "exn + anoms list \<Rightarrow> exn + pystr option list" where
  "fetch_anom_bridges job =
     (case job of
        Inr rows \<Rightarrow> Inr (map bridge rows)
      | Inl e \<Rightarrow> Inr [])"

subsection \<open>The request and its parameters\<close>

record request =
  args :: "(pystr \<times> pystr) list"
  is_json :: bool
  get_json :: pyval

text \<open>
  \<open>get_json\<close> is the result of \<open>request.get_json(silent=True)\<close>: the parsed body, or
  \<open>None\<close> when there is none. A body that is not a dict has no \<open>get\<close>; the
  \<open>AttributeError\<close> is caught and the default returned.
\<close>

definition get_param :: "request \<Rightarrow> pystr \<Rightarrow> pyval \<Rightarrow> pyval" where
  "get_param request name dflt =
     (case map_of (args request) name of
        Some (x # xs) \<Rightarrow> PStr (x # xs)
      | _ \<Rightarrow>
          if is_json request then
            (let body = (if truthy (get_json request) then get_json request else PDict [])
             in case body of
                  PDict kvs \<Rightarrow> dict_get kvs name dflt
                | _ \<Rightarrow> dflt)
          else dflt)"

subsection \<open>The entrypoint \<open>explain\<close>\<close>

text \<open>
  Everything outside the process that one request meets. Each external call is made at
  most once per request, so its outcome is a field: the value returned, or the exception
  raised. The evidence query is the exception, it is called with different arguments on
  the two branches.
\<close>

record world =
  runtime_of :: runtime
  yesterday_local_iso :: pystr
  k_revision :: pystr
  genai_model :: pystr
  send_on_fallback :: bool
  bq_client :: "exn option"
  anoms_job :: "exn + anoms list"
  evidence_job :: "pystr option list option \<Rightarrow> nat \<Rightarrow> exn + pydict list"
  contrast_job :: "exn + pydict list"
  generate_content :: "exn + pystr option"
  merge_job :: "exn option"
  telegram_configured :: bool
  telegram_post :: "exn option"

text \<open>
  What a request that returns leaves behind: the response and the calls made for the
  briefing. \<open>briefing_text\<close> and \<open>briefing_rows\<close> are the arguments of
  \<open>_merge_briefing\<close> and \<open>stored\<close> tells whether it went through; \<open>notified\<close> is the
  text handed to \<open>_send_telegram\<close>, if it was called, and \<open>delivered\<close> tells whether
  the message was posted. A failure of either is logged and changes nothing else.
\<close>

record run =
  status :: nat
  resp_ok :: bool
  resp_day :: pyval
  resp_chain :: pystr
  resp_rev :: pystr
  resp_wrote :: bool
  resp_fallback :: bool
  resp_reason :: pystr
  resp_rows :: nat
  resp_model :: pystr
  briefing_text :: pystr
  briefing_rows :: "pydict list"
  stored :: bool
  notified :: "pystr option"
  delivered :: bool

text \<open>
  The model call of either branch, from \<open>vertexai.init\<close> to the check of the text:
  the text, or the exception (\<open>RuntimeError\<close> for an empty text).
\<close>

definition model_text :: "world \<Rightarrow> exn + pystr" where
  "model_text w =
     (case generate_content w of
        Inl e \<Rightarrow> Inl e
      | Inr t \<Rightarrow>
          (let text = py_strip (case t of None \<Rightarrow> [] | Some s \<Rightarrow> s)
           in if text = [] then Inl RuntimeError else Inr text))"

text \<open>\<open>try: rows = fetch(...)\<close> with \<open>except Exception: rows = []\<close>\<close>

definition rows_or_empty :: "exn + 'a list \<Rightarrow> 'a list" where
  "rows_or_empty job = (case job of Inl e \<Rightarrow> [] | Inr rows \<Rightarrow> rows)"

definition finish ::
  "world \<Rightarrow> pyval \<Rightarrow> pystr \<Rightarrow> pystr \<Rightarrow> bool \<Rightarrow> pystr \<Rightarrow> pydict list \<Rightarrow> exn + run" where
  "finish w dayv chainv text fallback reason rows =
     Inr \<lparr> status = 200, resp_ok = True, resp_day = dayv, resp_chain = chainv,
           resp_rev = k_revision w, resp_wrote = True, resp_fallback = fallback,
           resp_reason = reason, resp_rows = length rows, resp_model = genai_model w,
           briefing_text = text, briefing_rows = rows,
           stored = (merge_job w = None),
           notified = (if send_on_fallback w \<or> \<not> fallback then Some text else None),
           delivered = ((send_on_fallback w \<or> \<not> fallback) \<and> telegram_configured w \<and>
                        telegram_post w = None) \<rparr>"

definition explain :: "world \<Rightarrow> request \<Rightarrow> exn + run" where
  "explain w request =
     (let p_day = get_param request (ascii ''day'') PNone;
          dayv = (if truthy p_day then p_day else PStr (yesterday_local_iso w));
          p_chain = get_param request (ascii ''chain'') PNone
      in case (if truthy p_chain then p_chain else PStr (ascii ''ethereum'')) of
           PStr s \<Rightarrow>
             (let chainv = py_lower s
              in case bq_client w of
                   Some e \<Rightarrow> Inl e
                 | None \<Rightarrow>
                     (let bridges = rows_or_empty (fetch_anom_bridges (anoms_job w))
                      in if bridges \<noteq> [] then
                           (let ev = rows_or_empty (evidence_job w (Some bridges) 200)
                            in case model_text w of
                                 Inr text \<Rightarrow> finish w dayv chainv text False [] ev
                               | Inl e \<Rightarrow>
                                   finish w dayv chainv
                                     (fallback_summary (runtime_of w) (py_str (runtime_of w) dayv) ev
                                        (ascii ''Anomaly detected but model failed (fallback)''))
                                     True (ascii ''vertex_failed'') ev)
                         else
                           (let contrast_rows = rows_or_empty (contrast_job w)
                            in case model_text w of
                                 Inr text \<Rightarrow>
                                   finish w dayv chainv text False (ascii ''no_anomaly'') contrast_rows
                               | Inl e \<Rightarrow>
                                   (let tops = rows_or_empty (evidence_job w None 20)
                                    in finish w dayv chainv
                                         (fallback_summary (runtime_of w) (py_str (runtime_of w) dayv)
                                            tops (ascii ''No significant anomaly''))
                                         True (ascii ''no_anomaly_fallback'')
                                         (if contrast_rows \<noteq> [] then contrast_rows else tops)))))
         | _ \<Rightarrow> Inl AttributeError)"

subsection \<open>Example values for the service\<close>

text \<open>
  A stand-in for the interpreter in the examples, right for floats that are whole
  numbers of moderate size; no example formats a date or a container.
\<close>

definition example_runtime :: runtime where
  "example_runtime =
     \<lparr> float_repr = (\<lambda>x. str_int \<lfloor>x\<rfloor> @ ascii ''.0''),
       date_iso = (\<lambda>d. ascii ''2024-01-15''),
       container_str = (\<lambda>v. ascii ''[]'') \<rparr>"

definition example_big_rows :: pyval where
  "example_big_rows = PList [PDict [(ascii ''bridge'', PStr (replicate 900000 97))]]"

definition example_small_rows :: pyval where
  "example_small_rows = PList [PDict [(ascii ''bridge'', PStr (ascii ''hop''))]]"

definition example_request :: request where
  "example_request = \<lparr> args = [], is_json = True, get_json = PDict [(ascii ''chain'', PInt 5)] \<rparr>"

definition example_get :: request where
  "example_get =
     \<lparr> args = [(ascii ''day'', ascii ''2024-01-15''), (ascii ''chain'', ascii ''Ethereum'')],
       is_json = False, get_json = PNone \<rparr>"

text \<open>A world in which every service answers.\<close>

definition example_world :: world where
  "example_world =
     \<lparr> runtime_of = example_runtime, yesterday_local_iso = ascii ''2024-01-14'',
       k_revision = ascii ''unknown'', genai_model = ascii ''gemini-1.5-flash-002'',
       send_on_fallback = False, bq_client = None, anoms_job = Inr [],
       evidence_job = (\<lambda>bridges limit. Inr []), contrast_job = Inr [],
       generate_content = Inr (Some (ascii ''No significant anomaly today.'')),
       merge_job = None, telegram_configured = True, telegram_post = None \<rparr>"

text \<open>A world in which every service fails, the construction of the client apart.\<close>

definition example_failing_world :: world where
  "example_failing_world =
     \<lparr> runtime_of = example_runtime, yesterday_local_iso = ascii ''2024-01-14'',
       k_revision = ascii ''unknown'', genai_model = ascii ''gemini-1.5-flash-002'',
       send_on_fallback = True, bq_client = None,
       anoms_job = Inl (ExternalError (ascii ''NotFound'')),
       evidence_job = (\<lambda>bridges limit. Inl (ExternalError (ascii ''BadRequest''))),
       contrast_job = Inl (ExternalError (ascii ''BadRequest'')),
       generate_content = Inl (ExternalError (ascii ''DeadlineExceeded'')),
       merge_job = Some (ExternalError (ascii ''Forbidden'')),
       telegram_configured = True,
       telegram_post = Some (ExternalError (ascii ''HTTPError'')) \<rparr>"

subsection \<open>A busy day\<close>

text \<open>Six bridges on day 10, in the order of the table and in the order of the query.\<close>

definition busy_flows :: "flows_daily list" where
  "busy_flows =
     [ flow 10 ''ethereum'' ''hop'' ''ETH'' 10 50 (- 40) 1 1,
       flow 10 ''ethereum'' ''across'' ''USDC'' 100 40 60 3 2,
       flow 10 ''ethereum'' ''stargate'' ''USDT'' 20 0 20 2 2,
       flow 10 ''ethereum'' ''synapse'' ''DAI'' 5 55 (- 50) 4 3,
       flow 10 ''ethereum'' ''celer'' ''WETH'' 45 15 30 6 5,
       flow 10 ''ethereum'' ''connext'' ''USDC'' 15 10 5 1 1 ]"

definition grp :: "string \<Rightarrow> string \<Rightarrow> rat \<Rightarrow> rat \<Rightarrow> rat \<Rightarrow> int \<Rightarrow> int \<Rightarrow> bt \<times> totals" where
  "grp b t i out n tx uw =
     ((Some (ascii b), Some (ascii t)),
      \<lparr> t_in = Some i, t_out = Some out, t_net = Some n, t_txs = Some tx, t_uw = Some uw \<rparr>)"

definition busy_groups :: "(bt \<times> totals) list" where
  "busy_groups =
     [ grp ''across'' ''USDC'' 100 40 60 3 2,
       grp ''synapse'' ''DAI'' 5 55 (- 50) 4 3,
       grp ''hop'' ''ETH'' 10 50 (- 40) 1 1,
       grp ''celer'' ''WETH'' 45 15 30 6 5,
       grp ''stargate'' ''USDT'' 20 0 20 2 2,
       grp ''connext'' ''USDC'' 15 10 5 1 1 ]"

text \<open>
  A world without anomaly view in which the model times out and the evidence query
  returns the groups of the busy day.
\<close>

definition example_fallback_world :: world where
  "example_fallback_world =
     \<lparr> runtime_of = example_runtime, yesterday_local_iso = ascii ''2024-01-14'',
       k_revision = ascii ''unknown'', genai_model = ascii ''gemini-1.5-flash-002'',
       send_on_fallback = False, bq_client = None,
       anoms_job = Inl (ExternalError (ascii ''NotFound'')),
       evidence_job = (\<lambda>bridges limit.
          if bridges = None \<and> limit = 20
          then Inr (map (evidence_dict 10 (ascii ''ethereum'')) busy_groups)
          else Inl (ExternalError (ascii ''BadRequest''))),
       contrast_job = Inr [],
       generate_content = Inl (ExternalError (ascii ''DeadlineExceeded'')),
       merge_job = None, telegram_configured = True, telegram_post = None \<rparr>"



lemma non_nulls_append: "non_nulls (xs @ ys) = non_nulls xs @ non_nulls ys"
  by (induction xs rule: non_nulls.induct) auto





lemma group_by_keys: "map fst (group_by key rows) = remdups (map key rows)"
  by (simp add: group_by_def comp_def)












lemma ascii_CHAIN_neq_BRIDGE: "ascii ''_BRIDGE'' \<noteq> ascii ''_CHAIN''"
  by (simp add: ascii_def)

lemma level_chain_ctx: "level (chain_ctx d c flows) = ascii ''_CHAIN''"
  by (simp add: chain_ctx_def Let_def)

lemma level_bridge_ctx: "r \<in> set (bridge_ctx d c flows) \<Longrightarrow> level r = ascii ''_BRIDGE''"
  by (auto simp: bridge_ctx_def Let_def bridge_row_def)

lemma level_rank_chain_ctx: "level_rank (chain_ctx d c flows) = 0"
  by (simp add: level_rank_def level_chain_ctx)

lemma level_rank_bridge_ctx: "r \<in> set (bridge_ctx d c flows) \<Longrightarrow> level_rank r = 1"
  by (simp add: level_rank_def level_bridge_ctx ascii_CHAIN_neq_BRIDGE)

lemma fetch_contrast_rows_shape:
  assumes "fetch_contrast_rows flows d c out"
  shows "\<exists>bs. out = chain_ctx d c flows # bs \<and> mset bs = mset (bridge_ctx d c flows)
              \<and> sorted_wrt by_abs_net bs"
proof -
  let ?ch = "chain_ctx d c flows"
  let ?br = "bridge_ctx d c flows"
  have perm: "mset out = mset (?ch # ?br)" and srt: "sorted_wrt contrast_before out"
    using assms by (simp_all add: fetch_contrast_rows_def order_by_def)
  have mem: "set out = insert ?ch (set ?br)"
    using perm by (metis list.simps(15) mset_eq_setD)
  have "out \<noteq> []" using perm by auto
  then obtain x bs where out: "out = x # bs" by (cases out) auto
  have x_first: "\<forall>y\<in>set bs. contrast_before x y" using srt out by simp
  have "x = ?ch"
  proof (rule ccontr)
    assume ne: "x \<noteq> ?ch"
    then have xb: "x \<in> set ?br" using mem out by auto
    have "?ch \<in> set bs" using mem out ne by auto
    then have "contrast_before x ?ch" using x_first by blast
    then show False
      by (simp add: contrast_before_def level_rank_chain_ctx level_rank_bridge_ctx [OF xb])
  qed
  then have out': "out = ?ch # bs" using out by simp
  have pb: "mset bs = mset ?br" using perm out' by simp
  then have sb: "set bs = set ?br" by (rule mset_eq_setD)
  have "sorted_wrt contrast_before bs" using srt out by simp
  then have "sorted_wrt by_abs_net bs"
  proof (rule sorted_wrt_mono_rel [rotated])
    fix a b assume "a \<in> set bs" "b \<in> set bs" "contrast_before a b"
    then show "by_abs_net a b"
      using sb by (auto simp: contrast_before_def by_abs_net_def level_rank_bridge_ctx)
  qed
  then show ?thesis using out' pb by blast
qed

lemma fetch_contrast_rows_total: "\<exists>out. fetch_contrast_rows flows d c out"
proof -
  let ?ch = "chain_ctx d c flows"
  let ?key = "\<lambda>r. - abs_coalesce0 (net_usd_d r)"
  let ?bs = "sort_key ?key (bridge_ctx d c flows)"
  have "sorted (map ?key ?bs)" by (rule sorted_sort_key)
  then have s: "sorted_wrt (\<lambda>a b. ?key a \<le> ?key b) ?bs"
    by (simp add: sorted_map)
  have "sorted_wrt contrast_before ?bs"
  proof (rule sorted_wrt_mono_rel [OF _ s])
    fix a b assume "a \<in> set ?bs" "b \<in> set ?bs" "?key a \<le> ?key b"
    then show "contrast_before a b"
      by (auto simp: contrast_before_def level_rank_bridge_ctx)
  qed
  moreover have "\<forall>b\<in>set ?bs. contrast_before ?ch b"
    by (auto simp: contrast_before_def level_rank_chain_ctx level_rank_bridge_ctx)
  ultimately have "fetch_contrast_rows flows d c (?ch # ?bs)"
    by (simp add: fetch_contrast_rows_def order_by_def)
  then show ?thesis ..
qed






lemmas sql_defs = sql_sum_def sql_avg_def sql_sub_def nullif0_def safe_divide_def sql_eq_def
  group_by_def left_join_def int_avg_def

lemma example_chain_ctx: "chain_ctx 10 (ascii ''ethereum'') example_flows = example_chain"
  by (simp add: chain_ctx_def chain_today_def chain_prev1_def chain_7d_def on_day_def
      in_window_def totals_of_def example_flows_def flow_def example_chain_def ascii_def sql_defs)

lemma example_bridge_ctx:
  "bridge_ctx 10 (ascii ''ethereum'') example_flows = [example_across, example_hop, example_stargate]"
  by (simp add: bridge_ctx_def bridge_today_def bridge_prev1_def bridge_7d_def bridge_row_def
      chain_total_net_def using_bt_def bt_of_def on_day_def
      in_window_def totals_of_def example_flows_def flow_def example_across_def example_hop_def
      example_stargate_def ascii_def sql_defs)

lemma example_levels:
  "level example_chain = ascii ''_CHAIN''" "level example_across = ascii ''_BRIDGE''"
  "level example_hop = ascii ''_BRIDGE''" "level example_stargate = ascii ''_BRIDGE''"
  by (simp_all add: example_chain_def example_across_def example_hop_def example_stargate_def)

lemma example_nets:
  "net_usd_d example_chain = Some 20" "net_usd_d example_across = Some 40"
  "net_usd_d example_hop = Some (-40)" "net_usd_d example_stargate = Some 20"
  by (simp_all add: example_chain_def example_across_def example_hop_def example_stargate_def)

lemma example_before:
  "contrast_before example_chain example_across" "contrast_before example_chain example_hop"
  "contrast_before example_chain example_stargate" "contrast_before example_across example_hop"
  "contrast_before example_hop example_across"
  "contrast_before example_across example_stargate" "contrast_before example_hop example_stargate"
  by (simp_all add: contrast_before_def level_rank_def example_levels example_nets
      abs_coalesce0_def ascii_CHAIN_neq_BRIDGE)

lemma example_fetch: "fetch_contrast_rows example_flows 10 (ascii ''ethereum'') example_out"
  by (simp add: fetch_contrast_rows_def order_by_def example_chain_ctx example_bridge_ctx
      example_out_def example_before)

lemma example_fetch_swapped:
  "fetch_contrast_rows example_flows 10 (ascii ''ethereum'') example_out_swapped"
  by (simp add: fetch_contrast_rows_def order_by_def example_chain_ctx example_bridge_ctx
      example_out_swapped_def example_before)

lemma pct_chain_ctx:
  "net_dod_pct (chain_ctx d c flows)
     = safe_divide (sql_sub (net_usd_d (chain_ctx d c flows)) (net_usd_p1 (chain_ctx d c flows)))
         (nullif0 (net_usd_p1 (chain_ctx d c flows)))"
  "net_vs7d_pct (chain_ctx d c flows)
     = safe_divide (sql_sub (net_usd_d (chain_ctx d c flows)) (net_usd_7avg (chain_ctx d c flows)))
         (nullif0 (net_usd_7avg (chain_ctx d c flows)))"
  by (simp_all add: chain_ctx_def Let_def)

lemma pct_bridge_row:
  "net_dod_pct (bridge_row d c n j)
     = safe_divide (sql_sub (net_usd_d (bridge_row d c n j)) (net_usd_p1 (bridge_row d c n j)))
         (nullif0 (net_usd_p1 (bridge_row d c n j)))"
  "net_vs7d_pct (bridge_row d c n j)
     = safe_divide (sql_sub (net_usd_d (bridge_row d c n j)) (net_usd_7avg (bridge_row d c n j)))
         (nullif0 (net_usd_7avg (bridge_row d c n j)))"
  by (simp_all add: bridge_row_def Let_def)

lemma pct_formula:
  "safe_divide (sql_sub t p) (nullif0 p)
     = (case (t, p) of
          (Some x, Some y) \<Rightarrow> if y = 0 then None else Some ((x - y) / y)
        | _ \<Rightarrow> None)"
  by (simp add: safe_divide_def sql_sub_def nullif0_def split: option.splits)

lemma fetch_contrast_rows_set:
  "fetch_contrast_rows flows d c out \<Longrightarrow>
   set out = insert (chain_ctx d c flows) (set (bridge_ctx d c flows))"
  by (metis fetch_contrast_rows_def order_by_def list.simps(15) mset_eq_setD)

text \<open>
  The percentage fields of a row in terms of the row's own fields: \<open>NULL\<close> when the
  reference field is \<open>NULL\<close> or zero, and otherwise
  \<open>(today - reference) / reference\<close>, \<open>NULL\<close> when today's net is.
\<close>

lemma pct_fields_of_row:
  assumes "fetch_contrast_rows flows d c out" and "r \<in> set out"
  shows "net_dod_pct r
           = (case (net_usd_d r, net_usd_p1 r) of
                (Some today, Some ref) \<Rightarrow>
                   if ref = 0 then None else Some ((today - ref) / ref)
              | _ \<Rightarrow> None) \<and>
         net_vs7d_pct r
           = (case (net_usd_d r, net_usd_7avg r) of
                (Some today, Some ref) \<Rightarrow>
                   if ref = 0 then None else Some ((today - ref) / ref)
              | _ \<Rightarrow> None) \<and>
         (net_usd_p1 r = None \<or> net_usd_p1 r = Some 0 \<longrightarrow> net_dod_pct r = None) \<and>
         (net_usd_7avg r = None \<or> net_usd_7avg r = Some 0 \<longrightarrow> net_vs7d_pct r = None)"
proof -
  have "r = chain_ctx d c flows \<or> r \<in> set (bridge_ctx d c flows)"
    using assms fetch_contrast_rows_set by blast
  then have raw:
    "net_dod_pct r = safe_divide (sql_sub (net_usd_d r) (net_usd_p1 r)) (nullif0 (net_usd_p1 r))
     \<and> net_vs7d_pct r
         = safe_divide (sql_sub (net_usd_d r) (net_usd_7avg r)) (nullif0 (net_usd_7avg r))"
  proof
    assume "r = chain_ctx d c flows"
    then show ?thesis using pct_chain_ctx by simp
  next
    assume "r \<in> set (bridge_ctx d c flows)"
    then obtain n j where "r = bridge_row d c n j"
      by (auto simp: bridge_ctx_def Let_def)
    then show ?thesis using pct_bridge_row by simp
  qed
  have dod: "net_dod_pct r
           = (case (net_usd_d r, net_usd_p1 r) of
                (Some today, Some ref) \<Rightarrow>
                   if ref = 0 then None else Some ((today - ref) / ref)
              | _ \<Rightarrow> None)"
    using raw by (simp only: pct_formula)
  have vs7: "net_vs7d_pct r
           = (case (net_usd_d r, net_usd_7avg r) of
                (Some today, Some ref) \<Rightarrow>
                   if ref = 0 then None else Some ((today - ref) / ref)
              | _ \<Rightarrow> None)"
    using raw by (simp only: pct_formula)
  have n1: "net_usd_p1 r = None \<or> net_usd_p1 r = Some 0 \<longrightarrow> net_dod_pct r = None"
    unfolding dod by (auto split: option.splits)
  have n7: "net_usd_7avg r = None \<or> net_usd_7avg r = Some 0 \<longrightarrow> net_vs7d_pct r = None"
    unfolding vs7 by (auto split: option.splits)
  show ?thesis using dod vs7 n1 n7 by blast
qed


text \<open>
  Claim C2, as amended. Every result starts with the chain-level row, followed by the
  bridge-level rows, each once, in an order in which the absolute today-net (\<open>NULL\<close>
  counted as zero) never increases. Nothing is said about rows of equal absolute net:
  the query has no further sort key.
\<close>

theorem chain_row_first_then_by_abs_net:
  assumes "fetch_contrast_rows flows d c out"
  shows "\<exists>ch bs. out = ch # bs \<and> ch = chain_ctx d c flows \<and> level ch = ascii ''_CHAIN'' \<and>
           mset bs = mset (bridge_ctx d c flows) \<and>
           (\<forall>b\<in>set bs. level b = ascii ''_BRIDGE'') \<and>
           sorted_wrt (\<lambda>a b. abs_coalesce0 (net_usd_d a) \<ge> abs_coalesce0 (net_usd_d b)) bs"
proof -
  obtain bs where out: "out = chain_ctx d c flows # bs"
    and pb: "mset bs = mset (bridge_ctx d c flows)"
    and srt: "sorted_wrt by_abs_net bs"
    using fetch_contrast_rows_shape [OF assms] by blast
  have "set bs = set (bridge_ctx d c flows)" using pb by (rule mset_eq_setD)
  then have lv: "\<forall>b\<in>set bs. level b = ascii ''_BRIDGE''" by (simp add: level_bridge_ctx)
  have "sorted_wrt (\<lambda>a b. abs_coalesce0 (net_usd_d a) \<ge> abs_coalesce0 (net_usd_d b)) bs"
    using srt by (simp add: by_abs_net_def [abs_def])
  then show ?thesis using out pb lv level_chain_ctx by blast
qed

theorem chain_row_first_then_by_abs_net_witness:
  "fetch_contrast_rows example_flows 10 (ascii ''ethereum'') example_out \<and>
   hd example_out = example_chain \<and>
   map (abs_coalesce0 \<circ> net_usd_d) (tl example_out) = [40, 40, 20]"
proof -
  have "hd example_out = example_chain \<and>
   map (abs_coalesce0 \<circ> net_usd_d) (tl example_out) = [40, 40, 20]"
    using chain_row_first_then_by_abs_net [OF example_fetch]
    by (simp add: example_out_def example_nets abs_coalesce0_def)
  then show ?thesis using example_fetch by blast
qed

text \<open>
  Claim C2 as stated fails: on the small table \<open>across\<close> and \<open>hop\<close> have the same
  absolute net, both arrangements are results of the query, and in one of them \<open>hop\<close>
  stands before \<open>across\<close>. The order is not a function of the data, and ties are not
  broken by the bridge or token identifier.
\<close>

theorem order_not_determined_counterexample:
  "fetch_contrast_rows example_flows 10 (ascii ''ethereum'') example_out \<and>
   fetch_contrast_rows example_flows 10 (ascii ''ethereum'') example_out_swapped \<and>
   example_out \<noteq> example_out_swapped \<and>
   map bridge (tl example_out_swapped)
     = [Some (ascii ''hop''), Some (ascii ''across''), Some (ascii ''stargate'')]"
proof -
  have "example_across \<noteq> example_hop"
    by (simp add: example_across_def example_hop_def)
  then have ne: "example_out \<noteq> example_out_swapped"
    by (simp add: example_out_def example_out_swapped_def)
  have br: "map bridge (tl example_out_swapped)
     = [Some (ascii ''hop''), Some (ascii ''across''), Some (ascii ''stargate'')]"
    by (simp add: example_out_swapped_def example_across_def example_hop_def
        example_stargate_def)
  show ?thesis using example_fetch example_fetch_swapped ne br by blast
qed








subsection \<open>The bridge-level 7-day reference\<close>

text \<open>
  The inner query of \<open>bridge_7d\<close> has no \<open>day\<close> in its \<open>GROUP BY\<close>, unlike that of
  \<open>chain_7d\<close>. Each pair has one inner row, and the average over it is the row itself:
  the field \<open>net_usd_7avg\<close> of a bridge-level row is the sum of the pair's net over the
  whole window. The percentage fields are computed from the field as it is.
\<close>

lemma filter_eq_distinct: "distinct ks \<Longrightarrow> k \<in> set ks \<Longrightarrow> filter (\<lambda>x. x = k) ks = [k]"
proof (induction ks)
  case Nil
  then show ?case by simp
next
  case (Cons a ks)
  show ?case
  proof (cases "a = k")
    case True
    then have "k \<notin> set ks" using Cons.prems by simp
    then have "filter (\<lambda>x. x = k) ks = []" by (auto simp: filter_empty_conv)
    then show ?thesis using True by simp
  next
    case False
    then show ?thesis using Cons by simp
  qed
qed

lemma sql_avg_single: "sql_avg [v] = v"
  by (cases v) (simp_all add: sql_avg_def)

lemma bridge_7d_is_window_sum:
  assumes "(k, a) \<in> set (bridge_7d d c flows)"
  shows "a_net a = sql_sum (map net_amount_usd (filter (\<lambda>r. bt_of r = k) (in_window d c flows)))"
proof -
  let ?W = "in_window d c flows"
  let ?ks = "remdups (map bt_of ?W)"
  let ?row = "\<lambda>k. (k, totals_of (filter (\<lambda>r. bt_of r = k) ?W))"
  let ?inner = "map ?row ?ks"
  have inner: "map (\<lambda>(k, g). (k, totals_of g)) (group_by bt_of ?W) = ?inner"
    by (simp add: group_by_def comp_def)
  have keys: "remdups (map fst ?inner) = ?ks" by (simp add: comp_def)
  have grp: "filter (\<lambda>r. fst r = k') ?inner = [?row k']" if "k' \<in> set ?ks" for k'
  proof -
    have "filter (\<lambda>r. fst r = k') ?inner = map ?row (filter (\<lambda>x. x = k') ?ks)"
      by (simp add: filter_map comp_def)
    also have "\<dots> = [?row k']" using filter_eq_distinct [of ?ks k'] that by simp
    finally show ?thesis .
  qed
  have "bridge_7d d c flows
      = map (\<lambda>k. (k, \<lparr> a_in = sql_avg (map (t_in \<circ> snd) (filter (\<lambda>r. fst r = k) ?inner)),
                        a_out = sql_avg (map (t_out \<circ> snd) (filter (\<lambda>r. fst r = k) ?inner)),
                        a_net = sql_avg (map (t_net \<circ> snd) (filter (\<lambda>r. fst r = k) ?inner)),
                        a_txs = None, a_uw = None \<rparr>)) ?ks"
    unfolding bridge_7d_def Let_def inner group_by_def by (simp add: comp_def remdups_remdups)
  then obtain k' where k': "k' \<in> set ?ks" and kk: "k = k'"
    and a: "a = \<lparr> a_in = sql_avg (map (t_in \<circ> snd) (filter (\<lambda>r. fst r = k') ?inner)),
                  a_out = sql_avg (map (t_out \<circ> snd) (filter (\<lambda>r. fst r = k') ?inner)),
                  a_net = sql_avg (map (t_net \<circ> snd) (filter (\<lambda>r. fst r = k') ?inner)),
                  a_txs = None, a_uw = None \<rparr>"
    using assms by auto
  have "a_net a = sql_avg (map (t_net \<circ> snd) [?row k'])"
    unfolding a using grp [OF k'] by simp
  also have "\<dots> = t_net (totals_of (filter (\<lambda>r. bt_of r = k') ?W))"
    by (simp add: sql_avg_single)
  finally show ?thesis unfolding kk by (simp add: totals_of_def)
qed

text \<open>
  Claim C1 fails at the bridge level. With a net of 10 on each of the days 8, 9 and 10
  the pair's 7-day average is 10 and \<open>(today - reference) / reference\<close> is 0, as the
  chain-level row has it. The bridge-level row carries the window's sum 20 as its 7-day
  reference and \<open>net_vs7d_pct = -1/2\<close>.
\<close>

theorem bridge_vs7d_reference_is_window_sum:
  "map net_usd_d (bridge_ctx 10 (ascii ''ethereum'') steady_flows) = [Some 10] \<and>
   spec_pair_7avg_net 10 (ascii ''ethereum'') (Some (ascii ''across''), Some (ascii ''USDC''))
       steady_flows = Some 10 \<and>
   map net_usd_7avg (bridge_ctx 10 (ascii ''ethereum'') steady_flows) = [Some 20] \<and>
   map net_vs7d_pct (bridge_ctx 10 (ascii ''ethereum'') steady_flows) = [Some (- 1 / 2)] \<and>
   net_usd_7avg (chain_ctx 10 (ascii ''ethereum'') steady_flows) = Some 10 \<and>
   net_vs7d_pct (chain_ctx 10 (ascii ''ethereum'') steady_flows) = Some 0"
proof -
  have b: "map (\<lambda>r. (net_usd_d r, net_usd_7avg r, net_vs7d_pct r))
             (bridge_ctx 10 (ascii ''ethereum'') steady_flows) = [(Some 10, Some 20, Some (- 1 / 2))]"
    by (simp add: bridge_ctx_def bridge_today_def bridge_prev1_def bridge_7d_def bridge_row_def
      chain_total_net_def using_bt_def bt_of_def on_day_def in_window_def totals_of_def
      steady_flows_def flow_def ascii_def sql_defs)
  have s: "spec_pair_7avg_net 10 (ascii ''ethereum'') (Some (ascii ''across''), Some (ascii ''USDC''))
       steady_flows = Some 10"
    by (simp add: spec_pair_7avg_net_def bt_of_def in_window_def steady_flows_def flow_def
      ascii_def sql_defs)
  have c: "net_usd_7avg (chain_ctx 10 (ascii ''ethereum'') steady_flows) = Some 10 \<and>
   net_vs7d_pct (chain_ctx 10 (ascii ''ethereum'') steady_flows) = Some 0"
    by (simp add: chain_ctx_def chain_today_def chain_prev1_def chain_7d_def on_day_def
      in_window_def totals_of_def steady_flows_def flow_def ascii_def sql_defs)
  have b1: "map net_usd_d (bridge_ctx 10 (ascii ''ethereum'') steady_flows) = [Some 10]"
    and b2: "map net_usd_7avg (bridge_ctx 10 (ascii ''ethereum'') steady_flows) = [Some 20]"
    and b3: "map net_vs7d_pct (bridge_ctx 10 (ascii ''ethereum'') steady_flows) = [Some (- 1 / 2)]"
    using b by (auto simp: map_eq_Cons_conv)
  show ?thesis using b1 s b2 b3 c by (intro conjI) simp_all
qed

section \<open>Properties of the anomaly query and of \<open>_fetch_anom_bridges\<close>\<close>

text \<open>
  A total and transitive sort relation arranges every table, so a query with
  \<open>ORDER BY ... LIMIT\<close> has a result on every table.
\<close>

lemma filter_partition_mset:
  "mset (filter (\<lambda>y. \<not> P y) ys) + mset (filter P ys) = mset ys"
  by (induction ys) auto

lemma sorted_arrangement_exists:
  assumes total: "\<And>a b. before a b \<or> before b a"
    and trans: "\<And>a b c. before a b \<Longrightarrow> before b c \<Longrightarrow> before a c"
  shows "\<exists>ys. mset ys = mset xs \<and> sorted_wrt before ys"
proof (induction xs)
  case Nil
  then show ?case by simp
next
  case (Cons x xs)
  then obtain ys where p: "mset ys = mset xs" and s: "sorted_wrt before ys"
    by (elim exE conjE)
  let ?l = "filter (\<lambda>y. \<not> before x y) ys"
  let ?r = "filter (\<lambda>y. before x y) ys"
  have sl: "sorted_wrt before ?l" and sr: "sorted_wrt before ?r"
    using s by (simp_all add: sorted_wrt_filter)
  have lx: "\<forall>a\<in>set ?l. before a x"
  proof
    fix a assume "a \<in> set ?l"
    then have "\<not> before x a" by simp
    then show "before a x" using total [of a x] by blast
  qed
  have xr: "\<forall>b\<in>set ?r. before x b" by simp
  have lr: "\<forall>a\<in>set ?l. \<forall>b\<in>set ?r. before a b"
  proof (intro ballI)
    fix a b assume "a \<in> set ?l" "b \<in> set ?r"
    then have "before a x" "before x b" using lx xr by blast+
    then show "before a b" by (rule trans)
  qed
  have xs_r: "sorted_wrt before (x # ?r)"
    unfolding sorted_wrt.simps using sr xr by (intro conjI)
  have cross: "\<forall>a\<in>set ?l. \<forall>b\<in>set (x # ?r). before a b"
  proof (intro ballI)
    fix a b assume a: "a \<in> set ?l" and "b \<in> set (x # ?r)"
    then have "b = x \<or> b \<in> set ?r" by (metis set_ConsD)
    then show "before a b" using lx lr a by blast
  qed
  have srt: "sorted_wrt before (?l @ x # ?r)"
    unfolding sorted_wrt_append using sl xs_r cross by (intro conjI)
  have "mset ?l + mset ?r = mset xs"
    using filter_partition_mset [of "before x" ys] p by simp
  then have perm: "mset (?l @ x # ?r) = mset (x # xs)" by simp
  show ?case using perm srt by (intro exI [of _ "?l @ x # ?r"] conjI)
qed

lemma order_by_limit_take:
  assumes "mset ys = mset rows" and "sorted_wrt before ys"
  shows "order_by_limit before n rows (take n ys)"
proof -
  have len: "length ys = length rows" using assms(1) by (metis size_mset)
  have "mset ys = mset (take n ys) + mset (drop n ys)"
    by (metis append_take_drop_id mset_append)
  then have split: "mset rows = mset (take n ys) + mset (drop n ys)"
    using assms(1) by simp
  have sub: "mset (take n ys) \<subseteq># mset rows" unfolding split by simp
  have rest: "mset rows - mset (take n ys) = mset (drop n ys)" unfolding split by simp
  have "sorted_wrt before (take n ys @ drop n ys)" using assms(2) by simp
  then have s: "sorted_wrt before (take n ys)"
    and c: "\<forall>x\<in>set (take n ys). \<forall>y\<in>set (drop n ys). before x y"
    unfolding sorted_wrt_append by blast+
  have c': "\<forall>x\<in>set (take n ys). \<forall>y\<in>#mset (drop n ys). before x y" using c by simp
  have l: "length (take n ys) = min n (length rows)" using len by (simp add: min_def)
  show ?thesis
    unfolding order_by_limit_def rest using sub s c' l by blast
qed

lemma order_by_limit_total:
  assumes "\<And>a b. before a b \<or> before b a"
    and "\<And>a b c. before a b \<Longrightarrow> before b c \<Longrightarrow> before a c"
  shows "\<exists>out. order_by_limit before n rows out"
proof -
  obtain ys where "mset ys = mset rows" "sorted_wrt before ys"
    using sorted_arrangement_exists [of before rows] assms by blast
  then show ?thesis using order_by_limit_take by blast
qed

lemma order_by_limit_set: "order_by_limit before n rows out \<Longrightarrow> set out \<subseteq> set rows"
proof -
  assume "order_by_limit before n rows out"
  then have "mset out \<subseteq># mset rows" by (simp add: order_by_limit_def)
  then have "set_mset (mset out) \<subseteq> set_mset (mset rows)" by (rule set_mset_mono)
  then show ?thesis by simp
qed

lemma order_by_limit_length: "order_by_limit before n rows out \<Longrightarrow> length out \<le> n"
  by (simp add: order_by_limit_def)

lemma order_by_limit_take_top:
  assumes "order_by_limit before n rows out"
  shows "\<forall>x\<in>set (take k out). \<forall>y\<in>#(mset rows - mset (take k out)). before x y"
proof (intro ballI)
  fix x y assume x: "x \<in> set (take k out)" and y: "y \<in># mset rows - mset (take k out)"
  have sub: "mset out \<subseteq># mset rows" and srt: "sorted_wrt before out"
    and far: "\<forall>x\<in>set out. \<forall>y\<in>#(mset rows - mset out). before x y"
    using assms by (simp_all add: order_by_limit_def)
  have td: "mset out = mset (take k out) + mset (drop k out)"
    by (metis append_take_drop_id mset_append)
  obtain R where R: "mset rows = mset out + R"
    using sub by (auto simp: mset_subset_eq_exists_conv)
  have "mset rows - mset (take k out) = (mset rows - mset out) + mset (drop k out)"
    unfolding R by (simp add: td)
  then have "y \<in># mset rows - mset out \<or> y \<in> set (drop k out)" using y by auto
  moreover have "x \<in> set out" using x by (rule in_set_takeD)
  moreover have "\<forall>a\<in>set (take k out). \<forall>b\<in>set (drop k out). before a b"
  proof -
    have "sorted_wrt before (take k out @ drop k out)" using srt by simp
    then show ?thesis unfolding sorted_wrt_append by blast
  qed
  ultimately show "before x y" using far x by blast
qed

lemma desc_ge_total: "desc_ge a b \<or> desc_ge b a"
  by (cases a; cases b) auto

lemma desc_ge_trans: "desc_ge a b \<Longrightarrow> desc_ge b c \<Longrightarrow> desc_ge a c"
  by (cases a; cases b; cases c) auto

lemma desc_ge_antisym: "desc_ge a b \<Longrightarrow> desc_ge b a \<Longrightarrow> a = b"
  by (cases a; cases b) auto

lemma desc_ge_refl: "desc_ge a a"
  by (cases a) auto

lemma lex_total:
  "(desc_ge za zb \<and> za \<noteq> zb) \<or> (za = zb \<and> desc_ge na nb) \<or>
   (desc_ge zb za \<and> zb \<noteq> za) \<or> (zb = za \<and> desc_ge nb na)"
  using desc_ge_total [of za zb] desc_ge_total [of na nb] by blast

lemma lex_trans:
  assumes "(desc_ge za zb \<and> za \<noteq> zb) \<or> (za = zb \<and> desc_ge na nb)"
    and "(desc_ge zb zc \<and> zb \<noteq> zc) \<or> (zb = zc \<and> desc_ge nb nc)"
  shows "(desc_ge za zc \<and> za \<noteq> zc) \<or> (za = zc \<and> desc_ge na nc)"
proof (cases "za = zb")
  case True
  show ?thesis
  proof (cases "zb = zc")
    case True
    then show ?thesis using assms \<open>za = zb\<close> desc_ge_trans by blast
  next
    case False
    then show ?thesis using assms \<open>za = zb\<close> by blast
  qed
next
  case False
  then have ab: "desc_ge za zb" using assms(1) by blast
  show ?thesis
  proof (cases "zb = zc")
    case True
    then show ?thesis using ab False by blast
  next
    case False
    then have bc: "desc_ge zb zc" using assms(2) by blast
    have ac: "desc_ge za zc" using ab bc by (rule desc_ge_trans)
    have "za \<noteq> zc"
    proof
      assume "za = zc"
      then have "desc_ge zb za" using bc by simp
      then have "za = zb" using ab desc_ge_antisym by blast
      then show False using \<open>za \<noteq> zb\<close> by simp
    qed
    then show ?thesis using ac by blast
  qed
qed

lemma anom_before_total: "anom_before a b \<or> anom_before b a"
  unfolding anom_before_def Let_def using lex_total by blast

lemma anom_before_trans: "anom_before a b \<Longrightarrow> anom_before b c \<Longrightarrow> anom_before a c"
  unfolding anom_before_def Let_def by (rule lex_trans)

lemma anoms_query_total: "\<exists>out. anoms_query view d c out"
  unfolding anoms_query_def
  by (rule order_by_limit_total) (use anom_before_total anom_before_trans in blast)+

lemma evidence_before_total: "evidence_before a b \<or> evidence_before b a"
  unfolding evidence_before_def using desc_ge_total by blast

lemma evidence_before_trans:
  "evidence_before a b \<Longrightarrow> evidence_before b c \<Longrightarrow> evidence_before a c"
  unfolding evidence_before_def using desc_ge_trans by blast

lemma bridge_evidence_query_total: "\<exists>out. bridge_evidence_query flows d c bridges limit out"
  unfolding bridge_evidence_query_def
  by (rule order_by_limit_total) (use evidence_before_total evidence_before_trans in blast)+

lemma sql_eq_Some: "sql_eq a (Some x) \<longleftrightarrow> a = Some x"
  by (cases a) (auto simp: sql_eq_def)

lemma anom_before_explicit:
  "anom_before a b \<longleftrightarrow>
     (case zscore_30d a of
        None \<Rightarrow> zscore_30d b = None \<and>
                (case net_usd b of
                   None \<Rightarrow> True
                 | Some nb \<Rightarrow> (case net_usd a of None \<Rightarrow> False | Some na \<Rightarrow> \<bar>na\<bar> \<ge> \<bar>nb\<bar>))
      | Some za \<Rightarrow>
          (case zscore_30d b of
             None \<Rightarrow> True
           | Some zb \<Rightarrow>
               \<bar>za\<bar> > \<bar>zb\<bar> \<or>
               (\<bar>za\<bar> = \<bar>zb\<bar> \<and>
                (case net_usd b of
                   None \<Rightarrow> True
                 | Some nb \<Rightarrow> (case net_usd a of None \<Rightarrow> False | Some na \<Rightarrow> \<bar>na\<bar> \<ge> \<bar>nb\<bar>)))))"
proof -
  have n: "desc_ge (sql_abs x) (sql_abs y)
             = (case y of None \<Rightarrow> True
                | Some nb \<Rightarrow> (case x of None \<Rightarrow> False | Some na \<Rightarrow> \<bar>na\<bar> \<ge> \<bar>nb\<bar>))" for x y
    by (cases x; cases y) (simp_all add: sql_abs_def)
  show ?thesis
    unfolding anom_before_def Let_def n
    by (cases "zscore_30d a"; cases "zscore_30d b") (auto simp: sql_abs_def)
qed

text \<open>
  Claim C6. \<open>_fetch_anom_bridges\<close> never raises: an exception of the query (the view
  does not exist, the query fails) gives the empty list. When the query returns, the
  result is the bridge column of its rows: rows of the view for that day and chain that
  are flagged, each at most as often as in the view, 12 of them or all when there are
  fewer. They stand in descending order of the absolute z-score, rows of equal absolute
  z-score in descending order of the absolute net, a \<open>NULL\<close> after every number; and a
  flagged row that was left out ranks no higher than any row returned. Without a
  flagged row for the day and chain the list is empty.
\<close>

theorem fetch_anom_bridges_ranked_capped:
  "(\<forall>e. fetch_anom_bridges (Inl e) = Inr []) \<and>
   (\<exists>out. fetch_anom_bridges job = Inr out) \<and>
   (anoms_query view d c rows \<longrightarrow>
      fetch_anom_bridges (Inr rows) = Inr (map bridge rows) \<and>
      length rows = min 12 (length (filter (\<lambda>r. day r = Some d \<and> chain r = Some c \<and>
                                              is_anom_bridge r = Some True) view)) \<and>
      length (map bridge rows) \<le> 12 \<and>
      mset rows \<subseteq># mset (filter (\<lambda>r. day r = Some d \<and> chain r = Some c \<and>
                                       is_anom_bridge r = Some True) view) \<and>
      sorted_wrt
        (\<lambda>a b. case zscore_30d a of
                  None \<Rightarrow> zscore_30d b = None \<and>
                          (case net_usd b of
                             None \<Rightarrow> True
                           | Some nb \<Rightarrow> (case net_usd a of None \<Rightarrow> False
                                         | Some na \<Rightarrow> \<bar>na\<bar> \<ge> \<bar>nb\<bar>))
                | Some za \<Rightarrow>
                    (case zscore_30d b of
                       None \<Rightarrow> True
                     | Some zb \<Rightarrow>
                         \<bar>za\<bar> > \<bar>zb\<bar> \<or>
                         (\<bar>za\<bar> = \<bar>zb\<bar> \<and>
                          (case net_usd b of
                             None \<Rightarrow> True
                           | Some nb \<Rightarrow> (case net_usd a of None \<Rightarrow> False
                                         | Some na \<Rightarrow> \<bar>na\<bar> \<ge> \<bar>nb\<bar>)))))
        rows \<and>
      (\<forall>a\<in>set rows.
         \<forall>b\<in>#(mset (filter (\<lambda>r. day r = Some d \<and> chain r = Some c \<and>
                                    is_anom_bridge r = Some True) view) - mset rows).
           case zscore_30d a of
             None \<Rightarrow> zscore_30d b = None \<and>
                     (case net_usd b of
                        None \<Rightarrow> True
                      | Some nb \<Rightarrow> (case net_usd a of None \<Rightarrow> False
                                    | Some na \<Rightarrow> \<bar>na\<bar> \<ge> \<bar>nb\<bar>))
           | Some za \<Rightarrow>
               (case zscore_30d b of
                  None \<Rightarrow> True
                | Some zb \<Rightarrow>
                    \<bar>za\<bar> > \<bar>zb\<bar> \<or>
                    (\<bar>za\<bar> = \<bar>zb\<bar> \<and>
                     (case net_usd b of
                        None \<Rightarrow> True
                      | Some nb \<Rightarrow> (case net_usd a of None \<Rightarrow> False
                                    | Some na \<Rightarrow> \<bar>na\<bar> \<ge> \<bar>nb\<bar>))))) \<and>
      ((\<forall>r\<in>set view. \<not> (day r = Some d \<and> chain r = Some c \<and> is_anom_bridge r = Some True))
         \<longrightarrow> fetch_anom_bridges (Inr rows) = Inr []))"
proof -
  let ?flag = "\<lambda>r. day r = Some d \<and> chain r = Some c \<and> is_anom_bridge r = Some True"
  have w: "anom_where d c = ?flag"
    by (rule ext) (simp add: anom_where_def sql_eq_Some)
  have raise: "\<forall>e. fetch_anom_bridges (Inl e) = Inr []"
    by (simp add: fetch_anom_bridges_def)
  have ret: "\<exists>out. fetch_anom_bridges job = Inr out"
    by (cases job) (simp_all add: fetch_anom_bridges_def)
  have q: "fetch_anom_bridges (Inr rows) = Inr (map bridge rows) \<and>
      length rows = min 12 (length (filter ?flag view)) \<and>
      length (map bridge rows) \<le> 12 \<and>
      mset rows \<subseteq># mset (filter ?flag view) \<and>
      sorted_wrt anom_before rows \<and>
      (\<forall>a\<in>set rows. \<forall>b\<in>#(mset (filter ?flag view) - mset rows). anom_before a b) \<and>
      ((\<forall>r\<in>set view. \<not> ?flag r) \<longrightarrow> fetch_anom_bridges (Inr rows) = Inr [])"
    if h: "anoms_query view d c rows"
  proof -
    have o: "order_by_limit anom_before 12 (filter ?flag view) rows"
      using h by (simp add: anoms_query_def w)
    have f: "fetch_anom_bridges (Inr rows) = Inr (map bridge rows)"
      by (simp add: fetch_anom_bridges_def)
    have len: "length rows = min 12 (length (filter ?flag view))"
      using o by (simp add: order_by_limit_def)
    then have cap: "length (map bridge rows) \<le> 12" by simp
    have sub: "mset rows \<subseteq># mset (filter ?flag view)" using o by (simp add: order_by_limit_def)
    have srt: "sorted_wrt anom_before rows" using o by (simp add: order_by_limit_def)
    have top: "\<forall>a\<in>set rows. \<forall>b\<in>#(mset (filter ?flag view) - mset rows). anom_before a b"
      using o by (simp add: order_by_limit_def)
    have none: "(\<forall>r\<in>set view. \<not> ?flag r) \<longrightarrow> fetch_anom_bridges (Inr rows) = Inr []"
    proof
      assume "\<forall>r\<in>set view. \<not> ?flag r"
      then have "filter ?flag view = []" by (simp add: filter_empty_conv)
      then have "rows = []" using len by simp
      then show "fetch_anom_bridges (Inr rows) = Inr []" by (simp add: fetch_anom_bridges_def)
    qed
    show ?thesis using f len cap sub srt top none by (intro conjI)
  qed
  show ?thesis
    using raise ret q unfolding anom_before_explicit [abs_def] by blast
qed

lemma example_anoms_query: "anoms_query example_view 10 (ascii ''ethereum'') example_ranked"
  by (simp add: anoms_query_def order_by_limit_def example_view_def example_ranked_def anom_def
      anom_where_def anom_before_def sql_abs_def sql_eq_def ascii_def)

theorem fetch_anom_bridges_ranked_capped_witness:
  "anoms_query example_view 10 (ascii ''ethereum'') example_ranked \<and>
   length (filter (\<lambda>r. day r = Some 10 \<and> chain r = Some (ascii ''ethereum'') \<and>
                       is_anom_bridge r = Some True) example_view) = 13 \<and>
   fetch_anom_bridges (Inr example_ranked)
     = Inr (map (\<lambda>b. Some (ascii b))
              [''wormhole'', ''layerzero'', ''axelar'', ''connext'', ''debridge'', ''orbiter'',
               ''hyperlane'', ''multichain'', ''celer'', ''across'', ''synapse'', ''hop'']) \<and>
   map zscore_30d example_ranked
     = [Some 13, Some (- 12), Some 11, Some (- 10), Some 9, Some (- 8), Some 7, Some (- 6),
        Some 5, Some 4, Some (- 4), Some (- 3)] \<and>
   map net_usd (drop 9 example_ranked) = [Some (- 20), Some 5, Some 500] \<and>
   fetch_anom_bridges (Inl (ExternalError (ascii ''NotFound''))) = Inr []"
proof -
  note t = fetch_anom_bridges_ranked_capped [of "Inr example_ranked" example_view 10
      "ascii ''ethereum''" example_ranked]
  have a: "fetch_anom_bridges (Inr example_ranked) = Inr (map bridge example_ranked)"
    using t example_anoms_query by blast
  have b: "map bridge example_ranked
             = map (\<lambda>b. Some (ascii b))
              [''wormhole'', ''layerzero'', ''axelar'', ''connext'', ''debridge'', ''orbiter'',
               ''hyperlane'', ''multichain'', ''celer'', ''across'', ''synapse'', ''hop'']"
    by (simp add: example_ranked_def anom_def)
  have f: "length (filter (\<lambda>r. day r = Some 10 \<and> chain r = Some (ascii ''ethereum'') \<and>
                       is_anom_bridge r = Some True) example_view) = 13"
    by (simp add: example_view_def anom_def)
  have z: "map zscore_30d example_ranked
     = [Some 13, Some (- 12), Some 11, Some (- 10), Some 9, Some (- 8), Some 7, Some (- 6),
        Some 5, Some 4, Some (- 4), Some (- 3)]"
    and n: "map net_usd (drop 9 example_ranked) = [Some (- 20), Some 5, Some 500]"
    by (simp_all add: example_ranked_def anom_def)
  have c: "fetch_anom_bridges (Inl (ExternalError (ascii ''NotFound''))) = Inr []"
    using t by blast
  show ?thesis using example_anoms_query a b f z n c by simp
qed

section \<open>Properties of the attestation publisher\<close>

lemma starts_with_iff: "starts_with s p \<longleftrightarrow> (\<exists>b. s = p @ b)"
  by (induction s p rule: starts_with.induct) auto

lemma py_in_iff: "py_in p s \<longleftrightarrow> (\<exists>a b. s = a @ p @ b)"
proof (induction s)
  case Nil
  then show ?case by auto
next
  case (Cons c cs)
  show ?case
  proof
    assume "py_in p (c # cs)"
    then consider "starts_with (c # cs) p" | "py_in p cs" by auto
    then show "\<exists>a b. c # cs = a @ p @ b"
    proof cases
      case 1
      then obtain b where "c # cs = p @ b" using starts_with_iff by blast
      then have "c # cs = [] @ p @ b" by simp
      then show ?thesis by blast
    next
      case 2
      then obtain a b where "cs = a @ p @ b" using Cons.IH by blast
      then have "c # cs = (c # a) @ p @ b" by simp
      then show ?thesis by blast
    qed
  next
    assume "\<exists>a b. c # cs = a @ p @ b"
    then obtain a b where e: "c # cs = a @ p @ b" by blast
    show "py_in p (c # cs)"
    proof (cases a)
      case Nil
      then have "starts_with (c # cs) p" using e starts_with_iff by auto
      then show ?thesis by simp
    next
      case (Cons x a')
      then have "cs = a' @ p @ b" using e by simp
      then have "py_in p cs" using Cons.IH by blast
      then show ?thesis by simp
    qed
  qed
qed

lemma py_in_anomaly_stem:
  "py_in (ascii ''anomaly'') s \<Longrightarrow> py_in (ascii ''anomal'') s"
proof -
  assume "py_in (ascii ''anomaly'') s"
  then obtain a b where "s = a @ ascii ''anomaly'' @ b" using py_in_iff by blast
  then have "s = a @ ascii ''anomal'' @ (ascii ''y'' @ b)" by (simp add: ascii_def)
  then show ?thesis using py_in_iff by blast
qed

lemma py_in_Nil: "py_in p [] = (p = [])" by simp

text \<open>
  Claim C5, as amended. The classifier looks at the lowered text. It answers true
  exactly when the text contains one of the keywords \<open>anomal\<close>, \<open>abnormal\<close>,
  \<open>irregular\<close> or one of the two Chinese keywords, and none of the negation phrases
  \<open>no anomaly\<close>, \<open>no significant\<close> or the Chinese one. So a negation phrase wins over
  every keyword, a text without keyword is not anomalous, and neither is the empty text.
  The first keyword is the stem \<open>anomal\<close>: a text with \<open>anomaly\<close> contains it, and so
  does one with \<open>anomalous\<close> or \<open>anomalies\<close>.
\<close>

theorem decide_has_anomaly_rule:
  "decide_has_anomaly summary
     = ((py_in (ascii ''anomal'') (py_lower summary) \<or>
         py_in (ascii ''abnormal'') (py_lower summary) \<or>
         py_in (ascii ''irregular'') (py_lower summary) \<or>
         py_in [24322, 24120] (py_lower summary) \<or>
         py_in [26174, 33879] (py_lower summary)) \<and>
        \<not> (py_in (ascii ''no anomaly'') (py_lower summary) \<or>
           py_in (ascii ''no significant'') (py_lower summary) \<or>
           py_in [26410, 21457, 29616, 26174, 33879, 24322, 24120] (py_lower summary)))
   \<and> (py_in (ascii ''anomaly'') (py_lower summary) \<longrightarrow>
        py_in (ascii ''anomal'') (py_lower summary))
   \<and> decide_has_anomaly [] = False"
proof -
  have e: "decide_has_anomaly [] = False" by (simp add: decide_has_anomaly_def)
  have m: "decide_has_anomaly summary
     = ((py_in (ascii ''anomal'') (py_lower summary) \<or>
         py_in (ascii ''abnormal'') (py_lower summary) \<or>
         py_in (ascii ''irregular'') (py_lower summary) \<or>
         py_in [24322, 24120] (py_lower summary) \<or>
         py_in [26174, 33879] (py_lower summary)) \<and>
        \<not> (py_in (ascii ''no anomaly'') (py_lower summary) \<or>
           py_in (ascii ''no significant'') (py_lower summary) \<or>
           py_in [26410, 21457, 29616, 26174, 33879, 24322, 24120] (py_lower summary)))"
  proof (cases "summary = []")
    case True
    then show ?thesis by (simp add: decide_has_anomaly_def py_lower_def ascii_def)
  next
    case False
    then show ?thesis by (auto simp: decide_has_anomaly_def Let_def bad_def good_def)
  qed
  show ?thesis using e m py_in_anomaly_stem by blast
qed

lemmas str_defs = ascii_def py_lower_def lower_cp_def

theorem decide_has_anomaly_rule_witness:
  "decide_has_anomaly (ascii ''No significant anomaly detected today.'') = False \<and>
   decide_has_anomaly (ascii ''We observed a significant anomaly in bridge flows.'') = True \<and>
   decide_has_anomaly (ascii ''No anomaly despite irregular-looking totals.'') = False \<and>
   py_in (ascii ''anomaly'') (py_lower (ascii ''We observed a significant anomaly in bridge flows.''))"
proof -
  have a: "decide_has_anomaly (ascii ''No significant anomaly detected today.'') = False"
    using decide_has_anomaly_rule [of "ascii ''No significant anomaly detected today.''"]
    by (simp add: str_defs)
  have b: "decide_has_anomaly (ascii ''We observed a significant anomaly in bridge flows.'') = True"
    using decide_has_anomaly_rule [of "ascii ''We observed a significant anomaly in bridge flows.''"]
    by (simp add: str_defs)
  have c: "decide_has_anomaly (ascii ''No anomaly despite irregular-looking totals.'') = False"
    using decide_has_anomaly_rule [of "ascii ''No anomaly despite irregular-looking totals.''"]
    by (simp add: str_defs)
  have d: "py_in (ascii ''anomaly'')
             (py_lower (ascii ''We observed a significant anomaly in bridge flows.''))"
    by (simp add: str_defs)
  show ?thesis using a b c d by blast
qed

text \<open>
  Claim C5 as stated fails on a text that has none of the keywords the claim lists
  (\<open>anomaly\<close>, \<open>abnormal\<close>, \<open>irregular\<close>, the Chinese keywords) and is classified
  anomalous all the same, because it contains the stem \<open>anomal\<close>.
\<close>

theorem keyword_stem_counterexample:
  "decide_has_anomaly (ascii ''Two anomalies detected.'') = True \<and>
   \<not> py_in (ascii ''anomaly'') (py_lower (ascii ''Two anomalies detected.'')) \<and>
   \<not> py_in (ascii ''abnormal'') (py_lower (ascii ''Two anomalies detected.'')) \<and>
   \<not> py_in (ascii ''irregular'') (py_lower (ascii ''Two anomalies detected.'')) \<and>
   \<not> py_in [24322, 24120] (py_lower (ascii ''Two anomalies detected.'')) \<and>
   \<not> py_in [26174, 33879] (py_lower (ascii ''Two anomalies detected.''))"
  by (simp add: decide_has_anomaly_def bad_def good_def str_defs)

text \<open>
  Claim C10. The fields of an attestation are defined for every briefing row. A missing
  or empty \<open>source_rows_json\<close> is read as \<open>[]\<close> and counts 0 rows (given that the parser
  reads \<open>[]\<close> as the empty list); a snapshot that the parser rejects counts 0 rows; a
  snapshot that parses counts its length, or 0 when the value has none. A missing
  \<open>summary_text\<close> is the empty string: the hash is that of the empty string and the
  anomaly flag is false.
\<close>

theorem attest_fields_total:
  "((source_rows_json r = None \<or> source_rows_json r = Some []) \<and>
      json_loads (ascii ''[]'') = Inr (PList []) \<longrightarrow>
        evidenceRows (attest_fields keccak json_loads r) = 0) \<and>
   (\<forall>src e. source_rows_json r = Some src \<and> src \<noteq> [] \<and> json_loads src = Inl e \<longrightarrow>
        evidenceRows (attest_fields keccak json_loads r) = 0) \<and>
   (\<forall>src v. source_rows_json r = Some src \<and> src \<noteq> [] \<and> json_loads src = Inr v \<longrightarrow>
        evidenceRows (attest_fields keccak json_loads r)
          = (case py_len v of Inl e \<Rightarrow> 0 | Inr n \<Rightarrow> n)) \<and>
   (summary_text r = None \<or> summary_text r = Some [] \<longrightarrow>
        summaryHash (attest_fields keccak json_loads r) = keccak [] \<and>
        hasAnomaly (attest_fields keccak json_loads r) = False)"
  by (auto simp: attest_fields_def Let_def keccak32_def decide_has_anomaly_def
      split: option.splits)

theorem attest_fields_total_witness:
  "source_rows_json example_briefing = Some (ascii ''[1, 2'') \<and>
   example_loads (ascii ''[1, 2'') = Inl (ExternalError (ascii ''JSONDecodeError'')) \<and>
   summary_text example_briefing = None \<and>
   evidenceRows (attest_fields (\<lambda>s. length s) example_loads example_briefing) = 0 \<and>
   summaryHash (attest_fields (\<lambda>s. length s) example_loads example_briefing) = 0 \<and>
   hasAnomaly (attest_fields (\<lambda>s. length s) example_loads example_briefing) = False"
proof -
  have s: "source_rows_json example_briefing = Some (ascii ''[1, 2'')"
    and t: "summary_text example_briefing = None"
    by (simp_all add: example_briefing_def)
  have n: "ascii ''[1, 2'' \<noteq> []" by (simp add: ascii_def)
  have l: "example_loads (ascii ''[1, 2'') = Inl (ExternalError (ascii ''JSONDecodeError''))"
    by (simp add: example_loads_def ascii_def)
  note th = attest_fields_total [of example_briefing example_loads "\<lambda>s. length s"]
  have a: "evidenceRows (attest_fields (\<lambda>s. length s) example_loads example_briefing) = 0"
    using th s n l by blast
  have b: "summaryHash (attest_fields (\<lambda>s. length s) example_loads example_briefing) = 0 \<and>
   hasAnomaly (attest_fields (\<lambda>s. length s) example_loads example_briefing) = False"
    using th t by simp
  show ?thesis using s l t a b by blast
qed

section \<open>Properties of the stored snapshot\<close>

lemma json_escape_replicate_a: "concat (map json_escape_cp (replicate n 97)) = replicate n 97"
  by (induction n) (simp_all add: json_escape_cp_def)

lemma json_scan_append: "json_scan st (a @ b) = json_scan (json_scan st a) b"
proof (induction a arbitrary: st)
  case Nil
  then show ?case by simp
next
  case (Cons c cs)
  obtain d i e where st: "st = (d, i, e)" by (cases st)
  show ?case unfolding st using Cons.IH by simp
qed

lemma json_scan_in_string: "json_scan (d, True, False) (replicate n 97) = (d, True, False)"
  by (induction n) simp_all

lemma example_big_dumps:
  "json_dumps example_runtime example_big_rows
     = [91, 123, 34] @ ascii ''bridge'' @ [34, 58, 32, 34] @ replicate 900000 97 @ [34, 125, 93]"
  by (simp add: example_big_rows_def json_string_def json_escape_replicate_a ascii_def
      json_escape_cp_def)

lemma example_big_src:
  "merge_briefing_src example_runtime example_big_rows
     = [91, 123, 34] @ ascii ''bridge'' @ [34, 58, 32, 34] @ replicate 899987 97"
proof -
  have "merge_briefing_src example_runtime example_big_rows
      = take 900000 (json_dumps example_runtime example_big_rows)"
    by (simp add: merge_briefing_src_def example_big_rows_def)
  also have "\<dots> = [91, 123, 34] @ ascii ''bridge'' @ [34, 58, 32, 34] @ replicate 899987 97"
    unfolding example_big_dumps by (simp add: ascii_def)
  finally show ?thesis .
qed

text \<open>
  Claim C7, as amended. The stored snapshot is the first 900000 code points of the
  snapshot text (the string passed in, or the serialisation of the rows): a prefix of it,
  never longer than 900000 code points, and the whole text when that has at most 900000
  code points. Nothing is said about the form of a snapshot that was cut.
\<close>

theorem merge_briefing_src_prefix:
  "\<exists>full rest.
     (rows_or_json = PStr full \<or>
      ((\<forall>s. rows_or_json \<noteq> PStr s) \<and> full = json_dumps rt rows_or_json)) \<and>
     merge_briefing_src rt rows_or_json = take 900000 full \<and>
     full = merge_briefing_src rt rows_or_json @ rest \<and>
     length (merge_briefing_src rt rows_or_json) \<le> 900000 \<and>
     (length full \<le> 900000 \<longrightarrow> merge_briefing_src rt rows_or_json = full)"
proof -
  define full where "full = (case rows_or_json of PStr s \<Rightarrow> s | _ \<Rightarrow> json_dumps rt rows_or_json)"
  have kind: "rows_or_json = PStr full \<or>
      ((\<forall>s. rows_or_json \<noteq> PStr s) \<and> full = json_dumps rt rows_or_json)"
    by (cases rows_or_json) (simp_all add: full_def)
  have src: "merge_briefing_src rt rows_or_json = take 900000 full"
    by (cases rows_or_json) (simp_all add: full_def merge_briefing_src_def)
  have parts: "full = merge_briefing_src rt rows_or_json @ drop 900000 full"
    unfolding src by simp
  have len: "length (merge_briefing_src rt rows_or_json) \<le> 900000"
    unfolding src by simp
  have whole: "length full \<le> 900000 \<longrightarrow> merge_briefing_src rt rows_or_json = full"
    unfolding src by simp
  show ?thesis using kind src parts len whole by blast
qed

theorem merge_briefing_src_prefix_witness:
  "merge_briefing_src example_runtime example_small_rows
     = [91, 123, 34] @ ascii ''bridge'' @ [34, 58, 32, 34] @ ascii ''hop'' @ [34, 125, 93] \<and>
   json_dumps example_runtime example_small_rows
     = merge_briefing_src example_runtime example_small_rows \<and>
   length (json_dumps example_runtime example_small_rows) \<le> 900000"
proof -
  have d: "json_dumps example_runtime example_small_rows
     = [91, 123, 34] @ ascii ''bridge'' @ [34, 58, 32, 34] @ ascii ''hop'' @ [34, 125, 93]"
    by (simp add: example_small_rows_def json_string_def ascii_def json_escape_cp_def)
  have l: "length (json_dumps example_runtime example_small_rows) \<le> 900000"
    unfolding d by (simp add: ascii_def)
  obtain full rest where
    k: "example_small_rows = PStr full \<or>
        ((\<forall>s. example_small_rows \<noteq> PStr s) \<and> full = json_dumps example_runtime example_small_rows)"
    and w: "length full \<le> 900000 \<longrightarrow> merge_briefing_src example_runtime example_small_rows = full"
    using merge_briefing_src_prefix [of example_small_rows example_runtime] by blast
  have f: "full = json_dumps example_runtime example_small_rows"
    using k by (simp add: example_small_rows_def)
  have "merge_briefing_src example_runtime example_small_rows
          = json_dumps example_runtime example_small_rows"
    using w l unfolding f by blast
  then show ?thesis using d l by simp
qed

text \<open>
  Claim C7 as stated fails: a list of one row whose \<open>bridge\<close> is 900000 letters long
  serialises to 900016 code points of well-nested JSON; the stored snapshot ends inside
  the string of that row, with the object and the array still open and no marker of
  the cut.
\<close>

theorem truncation_mid_record_counterexample:
  "length (json_dumps example_runtime example_big_rows) = 900016 \<and>
   json_closed (json_dumps example_runtime example_big_rows) \<and>
   merge_briefing_src example_runtime example_big_rows
     = [91, 123, 34] @ ascii ''bridge'' @ [34, 58, 32, 34] @ replicate 899987 97 \<and>
   \<not> json_closed (merge_briefing_src example_runtime example_big_rows)"
proof -
  have l: "length (json_dumps example_runtime example_big_rows) = 900016"
    unfolding example_big_dumps by (simp add: ascii_def)
  have pre: "json_scan (0, False, False) ([91, 123, 34] @ ascii ''bridge'' @ [34, 58, 32, 34])
               = (2, True, False)"
    by (simp add: ascii_def)
  let ?P = "[91, 123, 34] @ ascii ''bridge'' @ [34, 58, 32, 34]"
  have c: "json_closed (json_dumps example_runtime example_big_rows)"
  proof -
    have "json_dumps example_runtime example_big_rows = ?P @ replicate 900000 97 @ [34, 125, 93]"
      unfolding example_big_dumps by simp
    then have "json_scan (0, False, False) (json_dumps example_runtime example_big_rows)
        = json_scan (json_scan (json_scan (0, False, False) ?P) (replicate 900000 97)) [34, 125, 93]"
      by (simp only: json_scan_append)
    also have "\<dots> = json_scan (2, True, False) [34, 125, 93]"
      by (simp only: pre json_scan_in_string)
    also have "\<dots> = (0, False, False)" by simp
    finally show ?thesis by (simp only: json_closed_def)
  qed
  have n: "\<not> json_closed (merge_briefing_src example_runtime example_big_rows)"
  proof -
    have "merge_briefing_src example_runtime example_big_rows = ?P @ replicate 899987 97"
      unfolding example_big_src by simp
    then have "json_scan (0, False, False) (merge_briefing_src example_runtime example_big_rows)
        = json_scan (json_scan (0, False, False) ?P) (replicate 899987 97)"
      by (simp only: json_scan_append)
    also have "\<dots> = (2, True, False)"
      by (simp only: pre json_scan_in_string)
    finally show ?thesis by (simp add: json_closed_def)
  qed
  show ?thesis using l c example_big_src n by blast
qed

section \<open>Properties of the entrypoint\<close>

lemma finish_ok:
  "\<exists>r. finish w dayv chainv text fallback reason rows = Inr r \<and> status r = 200 \<and> resp_ok r \<and>
        resp_wrote r \<and> resp_fallback r = fallback \<and> resp_reason r = reason \<and>
        resp_rows r = length rows \<and> briefing_text r = text \<and> briefing_rows r = rows \<and>
        resp_day r = dayv \<and> resp_chain r = chainv"
  by (simp add: finish_def)

lemma explain_unfold:
  assumes b: "bq_client w = None"
    and c: "(if truthy (get_param request (ascii ''chain'') PNone)
             then get_param request (ascii ''chain'') PNone else PStr (ascii ''ethereum'')) = PStr s"
  shows "explain w request =
     (let p_day = get_param request (ascii ''day'') PNone;
          dayv = (if truthy p_day then p_day else PStr (yesterday_local_iso w));
          chainv = py_lower s;
          bridges = rows_or_empty (fetch_anom_bridges (anoms_job w))
      in if bridges \<noteq> [] then
           (case model_text w of
              Inr text \<Rightarrow> finish w dayv chainv text False []
                             (rows_or_empty (evidence_job w (Some bridges) 200))
            | Inl e \<Rightarrow>
                finish w dayv chainv
                  (fallback_summary (runtime_of w) (py_str (runtime_of w) dayv)
                     (rows_or_empty (evidence_job w (Some bridges) 200))
                     (ascii ''Anomaly detected but model failed (fallback)''))
                  True (ascii ''vertex_failed'')
                  (rows_or_empty (evidence_job w (Some bridges) 200)))
         else
           (case model_text w of
              Inr text \<Rightarrow> finish w dayv chainv text False (ascii ''no_anomaly'')
                             (rows_or_empty (contrast_job w))
            | Inl e \<Rightarrow>
                finish w dayv chainv
                  (fallback_summary (runtime_of w) (py_str (runtime_of w) dayv)
                     (rows_or_empty (evidence_job w None 20)) (ascii ''No significant anomaly''))
                  True (ascii ''no_anomaly_fallback'')
                  (if rows_or_empty (contrast_job w) \<noteq> [] then rows_or_empty (contrast_job w)
                   else rows_or_empty (evidence_job w None 20))))"
  unfolding explain_def Let_def c using b by simp

lemma chain_param_cases:
  assumes "\<not> truthy (get_param request (ascii ''chain'') PNone) \<or>
           (\<exists>s. get_param request (ascii ''chain'') PNone = PStr s)"
  shows "\<exists>s. (if truthy (get_param request (ascii ''chain'') PNone)
             then get_param request (ascii ''chain'') PNone else PStr (ascii ''ethereum'')) = PStr s"
  using assms by auto

lemma explain_outcome:
  assumes b: "bq_client w = None"
    and c: "(if truthy (get_param request (ascii ''chain'') PNone)
             then get_param request (ascii ''chain'') PNone else PStr (ascii ''ethereum'')) = PStr s"
  shows "\<exists>text fallback reason rows.
           explain w request
             = finish w (if truthy (get_param request (ascii ''day'') PNone)
                         then get_param request (ascii ''day'') PNone
                         else PStr (yesterday_local_iso w))
                 (py_lower s) text fallback reason rows \<and>
           (fallback \<longleftrightarrow> (\<exists>e. model_text w = Inl e)) \<and>
           reason \<in> {[], ascii ''vertex_failed'', ascii ''no_anomaly'', ascii ''no_anomaly_fallback''} \<and>
           (fallback \<longrightarrow>
              (\<exists>ev why. text = fallback_summary (runtime_of w)
                            (py_str (runtime_of w)
                               (if truthy (get_param request (ascii ''day'') PNone)
                                then get_param request (ascii ''day'') PNone
                                else PStr (yesterday_local_iso w))) ev why \<and>
                        (why = ascii ''Anomaly detected but model failed (fallback)'' \<or>
                         why = ascii ''No significant anomaly'') \<and>
                        (\<exists>bridges limit. ev = rows_or_empty (evidence_job w bridges limit))))"
proof (cases "model_text w")
  case (Inl e)
  show ?thesis
    unfolding explain_unfold [OF b c] Let_def Inl
    by (cases "rows_or_empty (fetch_anom_bridges (anoms_job w)) \<noteq> []") (simp; blast)+
next
  case (Inr t)
  show ?thesis
    unfolding explain_unfold [OF b c] Let_def Inr
    by (cases "rows_or_empty (fetch_anom_bridges (anoms_job w)) \<noteq> []") (simp; blast)+
qed

text \<open>
  Claim C8, as amended. When the \<open>chain\<close> parameter is missing, falsy or a string, and
  the BigQuery client can be constructed, the request is answered with status 200 and
  \<open>ok = true\<close>, whatever the anomaly lookup, the evidence query, the contrast query, the
  model, the write of the briefing and the notification do: their failures show only in
  \<open>fallback\<close> and \<open>reason\<close>. An exception that leaves \<open>explain\<close> is answered by
  the hosting framework, not with this response.
\<close>

theorem explain_returns_200:
  assumes "bq_client w = None"
    and "\<not> truthy (get_param request (ascii ''chain'') PNone) \<or>
         (\<exists>s. get_param request (ascii ''chain'') PNone = PStr s)"
  shows "\<exists>r. explain w request = Inr r \<and> status r = 200 \<and> resp_ok r \<and> resp_wrote r \<and>
             (resp_fallback r \<longleftrightarrow> (\<exists>e. model_text w = Inl e)) \<and>
             resp_reason r \<in> {[], ascii ''vertex_failed'', ascii ''no_anomaly'',
                                ascii ''no_anomaly_fallback''}"
proof -
  obtain s where c: "(if truthy (get_param request (ascii ''chain'') PNone)
             then get_param request (ascii ''chain'') PNone else PStr (ascii ''ethereum'')) = PStr s"
    using chain_param_cases [OF assms(2)] by blast
  obtain tx fallback reason rows dayv where
    e: "explain w request = finish w dayv (py_lower s) tx fallback reason rows"
    and f: "fallback \<longleftrightarrow> (\<exists>e. model_text w = Inl e)"
    and r: "reason \<in> {[], ascii ''vertex_failed'', ascii ''no_anomaly'', ascii ''no_anomaly_fallback''}"
    using explain_outcome [OF assms(1) c] by blast
  obtain res where "finish w dayv (py_lower s) tx fallback reason rows = Inr res"
    "status res = 200" "resp_ok res" "resp_wrote res" "resp_fallback res = fallback"
    "resp_reason res = reason"
    using finish_ok [of w dayv "py_lower s" tx fallback reason rows] by blast
  then show ?thesis using e f r by auto
qed

lemma explain_raises:
  "(\<exists>e. explain w request = Inl e) \<longleftrightarrow>
     (truthy (get_param request (ascii ''chain'') PNone) \<and>
      (\<forall>s. get_param request (ascii ''chain'') PNone \<noteq> PStr s)) \<or>
     bq_client w \<noteq> None"
proof (cases "\<not> truthy (get_param request (ascii ''chain'') PNone) \<or>
              (\<exists>s. get_param request (ascii ''chain'') PNone = PStr s)")
  case True
  then obtain s where c: "(if truthy (get_param request (ascii ''chain'') PNone)
             then get_param request (ascii ''chain'') PNone else PStr (ascii ''ethereum'')) = PStr s"
    using chain_param_cases by blast
  show ?thesis
  proof (cases "bq_client w")
    case None
    obtain tx fallback reason rows dayv where
      "explain w request = finish w dayv (py_lower s) tx fallback reason rows"
      using explain_outcome [OF None c] by blast
    then have "\<exists>r. explain w request = Inr r" by (simp add: finish_def)
    then show ?thesis using True None by auto
  next
    case (Some e)
    then have "explain w request = Inl e"
      unfolding explain_def Let_def c by simp
    then show ?thesis using Some by auto
  qed
next
  case False
  then have t: "truthy (get_param request (ascii ''chain'') PNone)"
    and n: "\<forall>s. get_param request (ascii ''chain'') PNone \<noteq> PStr s" by auto
  have "explain w request = Inl AttributeError"
    unfolding explain_def Let_def using t n
    by (cases "get_param request (ascii ''chain'') PNone") simp_all
  then show ?thesis using t n by auto
qed

theorem explain_returns_200_witness:
  "bq_client example_failing_world = None \<and>
   get_param example_get (ascii ''chain'') PNone = PStr (ascii ''Ethereum'') \<and>
   (\<exists>r. explain example_failing_world example_get = Inr r \<and> status r = 200 \<and> resp_ok r \<and>
        resp_fallback r \<and> resp_reason r = ascii ''no_anomaly_fallback'' \<and>
        resp_chain r = ascii ''ethereum'' \<and> \<not> stored r \<and> \<not> delivered r)"
proof -
  have b: "bq_client example_failing_world = None" by (simp add: example_failing_world_def)
  have c: "get_param example_get (ascii ''chain'') PNone = PStr (ascii ''Ethereum'')"
    by (simp add: get_param_def example_get_def ascii_def)
  have h: "\<not> truthy (get_param example_get (ascii ''chain'') PNone) \<or>
         (\<exists>s. get_param example_get (ascii ''chain'') PNone = PStr s)"
    using c by simp
  obtain r where r: "explain example_failing_world example_get = Inr r" "status r = 200" "resp_ok r"
    using explain_returns_200 [OF b h] by blast
  have m: "model_text example_failing_world = Inl (ExternalError (ascii ''DeadlineExceeded''))"
    by (simp add: model_text_def example_failing_world_def)
  have a: "rows_or_empty (fetch_anom_bridges (anoms_job example_failing_world)) = []"
    by (simp add: rows_or_empty_def fetch_anom_bridges_def example_failing_world_def)
  have t: "truthy (PStr (ascii ''Ethereum''))" by (simp add: ascii_def)
  have l: "py_lower (ascii ''Ethereum'') = ascii ''ethereum''"
    by (simp add: py_lower_def lower_cp_def ascii_def)
  have "explain example_failing_world example_get
          = finish example_failing_world (PStr (ascii ''2024-01-15'')) (ascii ''ethereum'')
              (fallback_summary example_runtime (ascii ''2024-01-15'') []
                 (ascii ''No significant anomaly''))
              True (ascii ''no_anomaly_fallback'') []"
  proof -
    have d: "get_param example_get (ascii ''day'') PNone = PStr (ascii ''2024-01-15'')"
      by (simp add: get_param_def example_get_def ascii_def)
    have td: "truthy (PStr (ascii ''2024-01-15''))" by (simp add: ascii_def)
    have e: "rows_or_empty (evidence_job example_failing_world None 20) = []"
      "rows_or_empty (contrast_job example_failing_world) = []"
      "runtime_of example_failing_world = example_runtime"
      by (simp_all add: rows_or_empty_def example_failing_world_def)
    show ?thesis
      unfolding explain_def Let_def c d by (simp only: t td if_True pyval.case b option.case a
          refl if_False m sum.case e py_str.simps l simp_thms)
  qed
  then have "resp_fallback r \<and> resp_reason r = ascii ''no_anomaly_fallback'' \<and>
        resp_chain r = ascii ''ethereum'' \<and> \<not> stored r \<and> \<not> delivered r"
    using r(1) by (auto simp: finish_def example_failing_world_def)
  then show ?thesis using b c r by blast
qed

text \<open>
  Claim C8 as stated fails: a POST with the JSON body \<open>{"chain": 5}\<close> reaches
  \<open>.lower()\<close> with an integer. The \<open>AttributeError\<close> is raised outside every \<open>try\<close>,
  in a world where every service answers.
\<close>

theorem explain_non_string_chain_counterexample:
  "bq_client example_world = None \<and>
   get_param example_request (ascii ''chain'') PNone = PInt 5 \<and>
   explain example_world example_request = Inl AttributeError"
proof -
  have b: "bq_client example_world = None" by (simp add: example_world_def)
  have c: "get_param example_request (ascii ''chain'') PNone = PInt 5"
    by (simp add: get_param_def example_request_def dict_get_def ascii_def)
  have "explain example_world example_request = Inl AttributeError"
    unfolding explain_def Let_def c by simp
  then show ?thesis using b c by blast
qed

section \<open>Properties of the fallback summary\<close>

lemma str_nat_digit: "n < 10 \<Longrightarrow> str_nat n = [digit n]"
  by (simp add: str_nat.simps)

lemma str_nat_more: "10 \<le> n \<Longrightarrow> str_nat n = str_nat (n div 10) @ [digit (n mod 10)]"
  by (subst str_nat.simps) simp

lemma fallback_summary_shape:
  "fallback_summary rt day_iso rows reason
     = ascii ''[Cross-Chain Flow Briefing | '' @ day_iso @ ascii '']'' @ [10] @
       ascii ''Conclusion: '' @ reason @ ascii ''.'' @ [10] @
       (if rows = [] then ascii ''Top flows: none.''
        else ascii ''Top flows:'' @ [10] @ py_join [10] (map (fallback_item rt) (take 5 rows))) @
       [10] @ fallback_tail"
  by (simp add: fallback_summary_def Let_def)

lemma model_text_fails:
  "(\<exists>e. model_text w = Inl e) \<longleftrightarrow>
     (\<exists>e. generate_content w = Inl e) \<or> generate_content w = Inr None \<or>
     (\<exists>s. generate_content w = Inr (Some s) \<and> py_strip s = [])"
proof (cases "generate_content w")
  case (Inl e)
  then show ?thesis by (simp add: model_text_def)
next
  case (Inr t)
  then show ?thesis
    by (cases t) (simp_all add: model_text_def Let_def py_strip_def)
qed

lemma evidence_top5:
  assumes "bridge_evidence_query flows d c bridges limit groups"
  shows "\<forall>x\<in>set (take 5 groups).
           \<forall>y\<in>#(mset (evidence_groups flows d c bridges) - mset (take 5 groups)).
             desc_ge (sql_abs (t_net (snd x))) (sql_abs (t_net (snd y)))"
  using order_by_limit_take_top [OF assms [unfolded bridge_evidence_query_def], of 5]
  by (simp add: evidence_before_def)

lemma floor_numeral_divide: "\<lfloor>(numeral a :: rat) / numeral b\<rfloor> = numeral a div numeral b"
  using floor_divide_of_int_eq [of "numeral a" "numeral b", where ?'a = rat] by simp

lemma floor_one_divide: "\<lfloor>(1 :: rat) / numeral b\<rfloor> = 1 div numeral b"
  using floor_divide_of_int_eq [of 1 "numeral b", where ?'a = rat] by simp

lemma busy_evidence_groups:
  "evidence_groups busy_flows 10 (ascii ''ethereum'') None
     = [ grp ''hop'' ''ETH'' 10 50 (- 40) 1 1,
         grp ''across'' ''USDC'' 100 40 60 3 2,
         grp ''stargate'' ''USDT'' 20 0 20 2 2,
         grp ''synapse'' ''DAI'' 5 55 (- 50) 4 3,
         grp ''celer'' ''WETH'' 45 15 30 6 5,
         grp ''connext'' ''USDC'' 15 10 5 1 1 ]"
  by (simp add: evidence_groups_def evidence_where_def group_by_def bt_of_def sql_eq_def
      sql_sum_def sql_round2_def busy_flows_def flow_def grp_def ascii_def
      floor_numeral_divide floor_one_divide)

lemma busy_evidence_query:
  "bridge_evidence_query busy_flows 10 (ascii ''ethereum'') None 20 busy_groups"
  unfolding bridge_evidence_query_def busy_evidence_groups
  by (simp add: order_by_limit_def busy_groups_def grp_def evidence_before_def sql_abs_def
      ascii_def)

lemma busy_items:
  "map (fallback_item example_runtime)
       (map (evidence_dict 10 (ascii ''ethereum'')) (take 5 busy_groups))
     = [ ascii ''- ethereum/across USDC: net'' @ [8776] @ ascii ''60.0, tx=3, wallets=2'',
         ascii ''- ethereum/synapse DAI: net'' @ [8776] @ ascii ''-50.0, tx=4, wallets=3'',
         ascii ''- ethereum/hop ETH: net'' @ [8776] @ ascii ''-40.0, tx=1, wallets=1'',
         ascii ''- ethereum/celer WETH: net'' @ [8776] @ ascii ''30.0, tx=6, wallets=5'',
         ascii ''- ethereum/stargate USDT: net'' @ [8776] @ ascii ''20.0, tx=2, wallets=2'' ]"
  by (simp add: busy_groups_def grp_def fallback_item_def evidence_dict_def dict_get_def
      opt_val_def example_runtime_def str_int_def str_nat_digit str_nat_more digit_def ascii_def)

lemma anom_bridges_of_job:
  "rows_or_empty (fetch_anom_bridges job) = (case job of Inl e \<Rightarrow> [] | Inr rows \<Rightarrow> map bridge rows)"
  by (cases job) (simp_all add: rows_or_empty_def fetch_anom_bridges_def)

lemma rows_or_empty_cases:
  "job = Inr ev \<or> ((\<exists>e. job = Inl e) \<and> ev = []) \<Longrightarrow> rows_or_empty job = ev"
  by (auto simp: rows_or_empty_def)

lemma explain_fallback_exact:
  assumes r: "explain w request = Inr r" and m: "model_text w = Inl e"
  shows "resp_fallback r \<and>
         briefing_text r
           = (if rows_or_empty (fetch_anom_bridges (anoms_job w)) \<noteq> []
              then fallback_summary (runtime_of w) (py_str (runtime_of w) (resp_day r))
                     (rows_or_empty (evidence_job w
                        (Some (rows_or_empty (fetch_anom_bridges (anoms_job w)))) 200))
                     (ascii ''Anomaly detected but model failed (fallback)'')
              else fallback_summary (runtime_of w) (py_str (runtime_of w) (resp_day r))
                     (rows_or_empty (evidence_job w None 20))
                     (ascii ''No significant anomaly''))"
proof -
  have "\<not> (\<exists>e. explain w request = Inl e)" using r by simp
  then have b: "bq_client w = None"
    and c: "\<not> truthy (get_param request (ascii ''chain'') PNone) \<or>
            (\<exists>s. get_param request (ascii ''chain'') PNone = PStr s)"
    unfolding explain_raises by blast+
  obtain s where s: "(if truthy (get_param request (ascii ''chain'') PNone)
             then get_param request (ascii ''chain'') PNone else PStr (ascii ''ethereum'')) = PStr s"
    using chain_param_cases [OF c] by blast
  show ?thesis
    using r unfolding explain_unfold [OF b s] Let_def m
    by (cases "rows_or_empty (fetch_anom_bridges (anoms_job w)) \<noteq> []")
       (auto simp: finish_def)
qed

lemma py_join5: "py_join sep [a, b, c, d, e] = a @ sep @ b @ sep @ c @ sep @ d @ sep @ e"
  by simp

lemma evidence_top5_explicit:
  assumes "bridge_evidence_query flows d c bridges limit groups"
  shows "\<forall>x\<in>set (take 5 groups).
           \<forall>y\<in>#(mset (evidence_groups flows d c bridges) - mset (take 5 groups)).
             (case t_net (snd y) of
                None \<Rightarrow> True
              | Some ny \<Rightarrow> (case t_net (snd x) of None \<Rightarrow> False | Some nx \<Rightarrow> \<bar>nx\<bar> \<ge> \<bar>ny\<bar>))"
proof (intro ballI)
  fix x y assume "x \<in> set (take 5 groups)"
    and "y \<in># mset (evidence_groups flows d c bridges) - mset (take 5 groups)"
  then have "desc_ge (sql_abs (t_net (snd x))) (sql_abs (t_net (snd y)))"
    using evidence_top5 [OF assms] by blast
  then show "case t_net (snd y) of
                None \<Rightarrow> True
              | Some ny \<Rightarrow> (case t_net (snd x) of None \<Rightarrow> False | Some nx \<Rightarrow> \<bar>nx\<bar> \<ge> \<bar>ny\<bar>)"
    by (cases "t_net (snd x)"; cases "t_net (snd y)") (simp_all add: sql_abs_def)
qed

text \<open>
  Claim C9. The fallback summary is a function of the day, the rows and the reason, so
  equal inputs give equal text. It is never empty; its second line is \<open>Conclusion: \<close>
  followed by the reason and a full stop; its body lists the first five rows, or says
  that there are none; it is defined for every list of rows. When a request returns
  and the model call raised (a timeout is an exception), gave no text or only white
  space, the request reports \<open>fallback\<close> and the text it writes is the fallback summary
  of exactly the rows the evidence query returned for that branch (the anomalous
  bridges with limit 200, or no filter with limit 20), of no rows when that query
  raised, with the reason of that branch. When these rows are a result of the evidence
  query on a table, the text is the summary of the first five groups, and no other group
  of the table has a larger absolute net than one of these five.
\<close>

theorem fallback_summary_contract:
  "fallback_summary rt day_iso rows reason \<noteq> [] \<and>
   fallback_summary rt day_iso rows reason
     = ascii ''[Cross-Chain Flow Briefing | '' @ day_iso @ ascii '']'' @ [10] @
       ascii ''Conclusion: '' @ reason @ ascii ''.'' @ [10] @
       (if rows = [] then ascii ''Top flows: none.''
        else ascii ''Top flows:'' @ [10] @ py_join [10] (map (fallback_item rt) (take 5 rows))) @
       [10] @ fallback_tail \<and>
   fallback_summary rt day_iso rows reason = fallback_summary rt day_iso (take 5 rows) reason \<and>
   (explain w request = Inr r \<and>
    ((\<exists>e. generate_content w = Inl e) \<or> generate_content w = Inr None \<or>
     (\<exists>s. generate_content w = Inr (Some s) \<and> py_strip s = []))
      \<longrightarrow> resp_fallback r \<and>
          (\<forall>anom_bridges filt lim why ev.
             anom_bridges = (case anoms_job w of Inl e \<Rightarrow> [] | Inr found \<Rightarrow> map bridge found) \<and>
             (if anom_bridges \<noteq> []
              then filt = Some anom_bridges \<and> lim = 200 \<and>
                   why = ascii ''Anomaly detected but model failed (fallback)''
              else filt = None \<and> lim = 20 \<and> why = ascii ''No significant anomaly'') \<and>
             (evidence_job w filt lim = Inr ev \<or>
              ((\<exists>e. evidence_job w filt lim = Inl e) \<and> ev = []))
             \<longrightarrow> briefing_text r
                   = fallback_summary (runtime_of w) (py_str (runtime_of w) (resp_day r)) ev why \<and>
                 (\<forall>flows d c groups.
                    ev = map (evidence_dict d c) groups \<and>
                    bridge_evidence_query flows d c filt lim groups
                    \<longrightarrow> briefing_text r
                          = fallback_summary (runtime_of w) (py_str (runtime_of w) (resp_day r))
                              (map (evidence_dict d c) (take 5 groups)) why \<and>
                        (\<forall>x\<in>set (take 5 groups).
                           \<forall>y\<in>#(mset (evidence_groups flows d c filt) - mset (take 5 groups)).
                             (case t_net (snd y) of
                                None \<Rightarrow> True
                              | Some ny \<Rightarrow> (case t_net (snd x) of
                                              None \<Rightarrow> False
                                            | Some nx \<Rightarrow> \<bar>nx\<bar> \<ge> \<bar>ny\<bar>))))))"
proof -
  have ne: "fallback_summary rt day_iso rows reason \<noteq> []"
    unfolding fallback_summary_shape by (simp add: ascii_def)
  have t5: "fallback_summary rt day_iso rows reason = fallback_summary rt day_iso (take 5 rows) reason"
    for rt day_iso rows reason
    unfolding fallback_summary_shape by simp
  have ex: "resp_fallback r \<and>
          (\<forall>anom_bridges filt lim why ev.
             anom_bridges = (case anoms_job w of Inl e \<Rightarrow> [] | Inr found \<Rightarrow> map bridge found) \<and>
             (if anom_bridges \<noteq> []
              then filt = Some anom_bridges \<and> lim = 200 \<and>
                   why = ascii ''Anomaly detected but model failed (fallback)''
              else filt = None \<and> lim = 20 \<and> why = ascii ''No significant anomaly'') \<and>
             (evidence_job w filt lim = Inr ev \<or>
              ((\<exists>e. evidence_job w filt lim = Inl e) \<and> ev = []))
             \<longrightarrow> briefing_text r
                   = fallback_summary (runtime_of w) (py_str (runtime_of w) (resp_day r)) ev why \<and>
                 (\<forall>flows d c groups.
                    ev = map (evidence_dict d c) groups \<and>
                    bridge_evidence_query flows d c filt lim groups
                    \<longrightarrow> briefing_text r
                          = fallback_summary (runtime_of w) (py_str (runtime_of w) (resp_day r))
                              (map (evidence_dict d c) (take 5 groups)) why \<and>
                        (\<forall>x\<in>set (take 5 groups).
                           \<forall>y\<in>#(mset (evidence_groups flows d c filt) - mset (take 5 groups)).
                             (case t_net (snd y) of
                                None \<Rightarrow> True
                              | Some ny \<Rightarrow> (case t_net (snd x) of
                                              None \<Rightarrow> False
                                            | Some nx \<Rightarrow> \<bar>nx\<bar> \<ge> \<bar>ny\<bar>)))))"
    if r: "explain w request = Inr r"
      and g: "(\<exists>e. generate_content w = Inl e) \<or> generate_content w = Inr None \<or>
              (\<exists>s. generate_content w = Inr (Some s) \<and> py_strip s = [])"
  proof -
    obtain e where m: "model_text w = Inl e" using g model_text_fails [of w] by blast
    note x = explain_fallback_exact [OF r m, unfolded anom_bridges_of_job]
    have fb: "resp_fallback r" using x by blast
    have main: "briefing_text r
                   = fallback_summary (runtime_of w) (py_str (runtime_of w) (resp_day r)) ev why \<and>
                 (\<forall>flows d c groups.
                    ev = map (evidence_dict d c) groups \<and>
                    bridge_evidence_query flows d c filt lim groups
                    \<longrightarrow> briefing_text r
                          = fallback_summary (runtime_of w) (py_str (runtime_of w) (resp_day r))
                              (map (evidence_dict d c) (take 5 groups)) why \<and>
                        (\<forall>x\<in>set (take 5 groups).
                           \<forall>y\<in>#(mset (evidence_groups flows d c filt) - mset (take 5 groups)).
                             (case t_net (snd y) of
                                None \<Rightarrow> True
                              | Some ny \<Rightarrow> (case t_net (snd x) of
                                              None \<Rightarrow> False
                                            | Some nx \<Rightarrow> \<bar>nx\<bar> \<ge> \<bar>ny\<bar>))))"
      if a: "anom_bridges = (case anoms_job w of Inl e \<Rightarrow> [] | Inr found \<Rightarrow> map bridge found)"
        and k: "if anom_bridges \<noteq> []
              then filt = Some anom_bridges \<and> lim = 200 \<and>
                   why = ascii ''Anomaly detected but model failed (fallback)''
              else filt = None \<and> lim = 20 \<and> why = ascii ''No significant anomaly''"
        and j: "evidence_job w filt lim = Inr ev \<or>
              ((\<exists>e. evidence_job w filt lim = Inl e) \<and> ev = [])"
      for anom_bridges filt lim why ev
    proof -
      have ev: "rows_or_empty (evidence_job w filt lim) = ev" using j by (rule rows_or_empty_cases)
      have tx: "briefing_text r
                  = fallback_summary (runtime_of w) (py_str (runtime_of w) (resp_day r)) ev why"
      proof (cases "anom_bridges \<noteq> []")
        case True
        then show ?thesis using x k ev unfolding a by simp
      next
        case False
        then show ?thesis using x k ev unfolding a by simp
      qed
      have q: "\<forall>flows d c groups.
                 ev = map (evidence_dict d c) groups \<and>
                 bridge_evidence_query flows d c filt lim groups
                 \<longrightarrow> briefing_text r
                       = fallback_summary (runtime_of w) (py_str (runtime_of w) (resp_day r))
                           (map (evidence_dict d c) (take 5 groups)) why \<and>
                     (\<forall>x\<in>set (take 5 groups).
                        \<forall>y\<in>#(mset (evidence_groups flows d c filt) - mset (take 5 groups)).
                          (case t_net (snd y) of
                             None \<Rightarrow> True
                           | Some ny \<Rightarrow> (case t_net (snd x) of
                                           None \<Rightarrow> False
                                         | Some nx \<Rightarrow> \<bar>nx\<bar> \<ge> \<bar>ny\<bar>)))"
      proof (intro allI impI)
        fix flows d c groups
        assume h: "ev = map (evidence_dict d c) groups \<and>
                   bridge_evidence_query flows d c filt lim groups"
        then have e: "ev = map (evidence_dict d c) groups"
          and b: "bridge_evidence_query flows d c filt lim groups" by simp_all
        have "briefing_text r
                = fallback_summary (runtime_of w) (py_str (runtime_of w) (resp_day r))
                    (take 5 ev) why"
          using tx t5 [of "runtime_of w" "py_str (runtime_of w) (resp_day r)" ev why] by simp
        then have one: "briefing_text r
                = fallback_summary (runtime_of w) (py_str (runtime_of w) (resp_day r))
                    (map (evidence_dict d c) (take 5 groups)) why"
          unfolding e by (simp add: take_map)
        show "briefing_text r
                = fallback_summary (runtime_of w) (py_str (runtime_of w) (resp_day r))
                    (map (evidence_dict d c) (take 5 groups)) why \<and>
              (\<forall>x\<in>set (take 5 groups).
                 \<forall>y\<in>#(mset (evidence_groups flows d c filt) - mset (take 5 groups)).
                   (case t_net (snd y) of
                      None \<Rightarrow> True
                    | Some ny \<Rightarrow> (case t_net (snd x) of
                                    None \<Rightarrow> False
                                  | Some nx \<Rightarrow> \<bar>nx\<bar> \<ge> \<bar>ny\<bar>)))"
          using one evidence_top5_explicit [OF b] by (rule conjI)
      qed
      show ?thesis using tx q by (rule conjI)
    qed
    have all: "\<forall>anom_bridges filt lim why ev.
             anom_bridges = (case anoms_job w of Inl e \<Rightarrow> [] | Inr found \<Rightarrow> map bridge found) \<and>
             (if anom_bridges \<noteq> []
              then filt = Some anom_bridges \<and> lim = 200 \<and>
                   why = ascii ''Anomaly detected but model failed (fallback)''
              else filt = None \<and> lim = 20 \<and> why = ascii ''No significant anomaly'') \<and>
             (evidence_job w filt lim = Inr ev \<or>
              ((\<exists>e. evidence_job w filt lim = Inl e) \<and> ev = []))
             \<longrightarrow> briefing_text r
                   = fallback_summary (runtime_of w) (py_str (runtime_of w) (resp_day r)) ev why \<and>
                 (\<forall>flows d c groups.
                    ev = map (evidence_dict d c) groups \<and>
                    bridge_evidence_query flows d c filt lim groups
                    \<longrightarrow> briefing_text r
                          = fallback_summary (runtime_of w) (py_str (runtime_of w) (resp_day r))
                              (map (evidence_dict d c) (take 5 groups)) why \<and>
                        (\<forall>x\<in>set (take 5 groups).
                           \<forall>y\<in>#(mset (evidence_groups flows d c filt) - mset (take 5 groups)).
                             (case t_net (snd y) of
                                None \<Rightarrow> True
                              | Some ny \<Rightarrow> (case t_net (snd x) of
                                              None \<Rightarrow> False
                                            | Some nx \<Rightarrow> \<bar>nx\<bar> \<ge> \<bar>ny\<bar>))))"
    proof (intro allI impI)
      fix anom_bridges filt lim why ev
      assume h: "anom_bridges = (case anoms_job w of Inl e \<Rightarrow> [] | Inr found \<Rightarrow> map bridge found) \<and>
             (if anom_bridges \<noteq> []
              then filt = Some anom_bridges \<and> lim = 200 \<and>
                   why = ascii ''Anomaly detected but model failed (fallback)''
              else filt = None \<and> lim = 20 \<and> why = ascii ''No significant anomaly'') \<and>
             (evidence_job w filt lim = Inr ev \<or>
              ((\<exists>e. evidence_job w filt lim = Inl e) \<and> ev = []))"
      show "briefing_text r
                   = fallback_summary (runtime_of w) (py_str (runtime_of w) (resp_day r)) ev why \<and>
                 (\<forall>flows d c groups.
                    ev = map (evidence_dict d c) groups \<and>
                    bridge_evidence_query flows d c filt lim groups
                    \<longrightarrow> briefing_text r
                          = fallback_summary (runtime_of w) (py_str (runtime_of w) (resp_day r))
                              (map (evidence_dict d c) (take 5 groups)) why \<and>
                        (\<forall>x\<in>set (take 5 groups).
                           \<forall>y\<in>#(mset (evidence_groups flows d c filt) - mset (take 5 groups)).
                             (case t_net (snd y) of
                                None \<Rightarrow> True
                              | Some ny \<Rightarrow> (case t_net (snd x) of
                                              None \<Rightarrow> False
                                            | Some nx \<Rightarrow> \<bar>nx\<bar> \<ge> \<bar>ny\<bar>))))"
      proof (rule main)
        show "anom_bridges = (case anoms_job w of Inl e \<Rightarrow> [] | Inr found \<Rightarrow> map bridge found)"
          using h by (rule conjunct1)
        show "if anom_bridges \<noteq> []
              then filt = Some anom_bridges \<and> lim = 200 \<and>
                   why = ascii ''Anomaly detected but model failed (fallback)''
              else filt = None \<and> lim = 20 \<and> why = ascii ''No significant anomaly''"
          using h [THEN conjunct2] by (rule conjunct1)
        show "evidence_job w filt lim = Inr ev \<or>
              ((\<exists>e. evidence_job w filt lim = Inl e) \<and> ev = [])"
          using h [THEN conjunct2] by (rule conjunct2)
      qed
    qed
    show ?thesis using fb all by (rule conjI)
  qed
  have last: "explain w request = Inr r \<and>
    ((\<exists>e. generate_content w = Inl e) \<or> generate_content w = Inr None \<or>
     (\<exists>s. generate_content w = Inr (Some s) \<and> py_strip s = []))
      \<longrightarrow> resp_fallback r \<and>
          (\<forall>anom_bridges filt lim why ev.
             anom_bridges = (case anoms_job w of Inl e \<Rightarrow> [] | Inr found \<Rightarrow> map bridge found) \<and>
             (if anom_bridges \<noteq> []
              then filt = Some anom_bridges \<and> lim = 200 \<and>
                   why = ascii ''Anomaly detected but model failed (fallback)''
              else filt = None \<and> lim = 20 \<and> why = ascii ''No significant anomaly'') \<and>
             (evidence_job w filt lim = Inr ev \<or>
              ((\<exists>e. evidence_job w filt lim = Inl e) \<and> ev = []))
             \<longrightarrow> briefing_text r
                   = fallback_summary (runtime_of w) (py_str (runtime_of w) (resp_day r)) ev why \<and>
                 (\<forall>flows d c groups.
                    ev = map (evidence_dict d c) groups \<and>
                    bridge_evidence_query flows d c filt lim groups
                    \<longrightarrow> briefing_text r
                          = fallback_summary (runtime_of w) (py_str (runtime_of w) (resp_day r))
                              (map (evidence_dict d c) (take 5 groups)) why \<and>
                        (\<forall>x\<in>set (take 5 groups).
                           \<forall>y\<in>#(mset (evidence_groups flows d c filt) - mset (take 5 groups)).
                             (case t_net (snd y) of
                                None \<Rightarrow> True
                              | Some ny \<Rightarrow> (case t_net (snd x) of
                                              None \<Rightarrow> False
                                            | Some nx \<Rightarrow> \<bar>nx\<bar> \<ge> \<bar>ny\<bar>)))))"
  proof (rule impI)
    assume h: "explain w request = Inr r \<and>
      ((\<exists>e. generate_content w = Inl e) \<or> generate_content w = Inr None \<or>
       (\<exists>s. generate_content w = Inr (Some s) \<and> py_strip s = []))"
    show "resp_fallback r \<and>
          (\<forall>anom_bridges filt lim why ev.
             anom_bridges = (case anoms_job w of Inl e \<Rightarrow> [] | Inr found \<Rightarrow> map bridge found) \<and>
             (if anom_bridges \<noteq> []
              then filt = Some anom_bridges \<and> lim = 200 \<and>
                   why = ascii ''Anomaly detected but model failed (fallback)''
              else filt = None \<and> lim = 20 \<and> why = ascii ''No significant anomaly'') \<and>
             (evidence_job w filt lim = Inr ev \<or>
              ((\<exists>e. evidence_job w filt lim = Inl e) \<and> ev = []))
             \<longrightarrow> briefing_text r
                   = fallback_summary (runtime_of w) (py_str (runtime_of w) (resp_day r)) ev why \<and>
                 (\<forall>flows d c groups.
                    ev = map (evidence_dict d c) groups \<and>
                    bridge_evidence_query flows d c filt lim groups
                    \<longrightarrow> briefing_text r
                          = fallback_summary (runtime_of w) (py_str (runtime_of w) (resp_day r))
                              (map (evidence_dict d c) (take 5 groups)) why \<and>
                        (\<forall>x\<in>set (take 5 groups).
                           \<forall>y\<in>#(mset (evidence_groups flows d c filt) - mset (take 5 groups)).
                             (case t_net (snd y) of
                                None \<Rightarrow> True
                              | Some ny \<Rightarrow> (case t_net (snd x) of
                                              None \<Rightarrow> False
                                            | Some nx \<Rightarrow> \<bar>nx\<bar> \<ge> \<bar>ny\<bar>)))))"
      by (rule ex [OF h [THEN conjunct1] h [THEN conjunct2]])
  qed
  show ?thesis
    using ne fallback_summary_shape [of rt day_iso rows reason] t5 [of rt day_iso rows reason] last
    by (intro conjI)
qed

theorem fallback_summary_contract_witness:
  "bridge_evidence_query busy_flows 10 (ascii ''ethereum'') None 20 busy_groups \<and>
   length busy_groups = 6 \<and>
   generate_content example_fallback_world = Inl (ExternalError (ascii ''DeadlineExceeded'')) \<and>
   evidence_job example_fallback_world None 20
     = Inr (map (evidence_dict 10 (ascii ''ethereum'')) busy_groups) \<and>
   (\<exists>r. explain example_fallback_world example_get = Inr r \<and> resp_fallback r \<and>
        briefing_text r
          = ascii ''[Cross-Chain Flow Briefing | 2024-01-15]'' @ [10] @
            ascii ''Conclusion: No significant anomaly.'' @ [10] @
            ascii ''Top flows:'' @ [10] @
            ascii ''- ethereum/across USDC: net'' @ [8776] @ ascii ''60.0, tx=3, wallets=2'' @ [10] @
            ascii ''- ethereum/synapse DAI: net'' @ [8776] @ ascii ''-50.0, tx=4, wallets=3'' @ [10] @
            ascii ''- ethereum/hop ETH: net'' @ [8776] @ ascii ''-40.0, tx=1, wallets=1'' @ [10] @
            ascii ''- ethereum/celer WETH: net'' @ [8776] @ ascii ''30.0, tx=6, wallets=5'' @ [10] @
            ascii ''- ethereum/stargate USDT: net'' @ [8776] @ ascii ''20.0, tx=2, wallets=2'' @ [10] @
            fallback_tail)"
proof -
  let ?w = example_fallback_world
  let ?ed = "evidence_dict 10 (ascii ''ethereum'')"
  have g: "generate_content ?w = Inl (ExternalError (ascii ''DeadlineExceeded''))"
    and b: "bq_client ?w = None"
    and a: "anoms_job ?w = Inl (ExternalError (ascii ''NotFound''))"
    and j: "evidence_job ?w None 20 = Inr (map ?ed busy_groups)"
    and rt: "runtime_of ?w = example_runtime"
    by (simp_all add: example_fallback_world_def)
  have len: "length busy_groups = 6" by (simp add: busy_groups_def)
  have c: "get_param example_get (ascii ''chain'') PNone = PStr (ascii ''Ethereum'')"
    and d: "get_param example_get (ascii ''day'') PNone = PStr (ascii ''2024-01-15'')"
    by (simp_all add: get_param_def example_get_def ascii_def)
  have s: "(if truthy (get_param example_get (ascii ''chain'') PNone)
            then get_param example_get (ascii ''chain'') PNone else PStr (ascii ''ethereum''))
             = PStr (ascii ''Ethereum'')"
    unfolding c by (simp add: ascii_def)
  obtain tx fb why rows where
    e: "explain ?w example_get
          = finish ?w (if truthy (get_param example_get (ascii ''day'') PNone)
                       then get_param example_get (ascii ''day'') PNone
                       else PStr (yesterday_local_iso ?w))
              (py_lower (ascii ''Ethereum'')) tx fb why rows"
    using explain_outcome [OF b s] by blast
  obtain r where r: "explain ?w example_get = Inr r" using e by (simp add: finish_def)
  have day: "resp_day r = PStr (ascii ''2024-01-15'')"
    using r e unfolding d by (auto simp: finish_def ascii_def)
  note t = fallback_summary_contract [of example_runtime "ascii ''2024-01-15''"
      "map ?ed (take 5 busy_groups)" "ascii ''No significant anomaly''" ?w example_get r]
  have h: "explain ?w example_get = Inr r \<and>
    ((\<exists>e. generate_content ?w = Inl e) \<or> generate_content ?w = Inr None \<or>
     (\<exists>s. generate_content ?w = Inr (Some s) \<and> py_strip s = []))"
    using r g by simp
  have fbk: "resp_fallback r" using t h by blast
  have "briefing_text r
          = fallback_summary (runtime_of ?w) (py_str (runtime_of ?w) (resp_day r))
              (map ?ed (take 5 busy_groups)) (ascii ''No significant anomaly'')"
  proof -
    have spec: "\<forall>anom_bridges filt lim why ev.
             anom_bridges = (case anoms_job ?w of Inl e \<Rightarrow> [] | Inr found \<Rightarrow> map bridge found) \<and>
             (if anom_bridges \<noteq> []
              then filt = Some anom_bridges \<and> lim = 200 \<and>
                   why = ascii ''Anomaly detected but model failed (fallback)''
              else filt = None \<and> lim = 20 \<and> why = ascii ''No significant anomaly'') \<and>
             (evidence_job ?w filt lim = Inr ev \<or>
              ((\<exists>e. evidence_job ?w filt lim = Inl e) \<and> ev = []))
             \<longrightarrow> (\<forall>flows d c groups.
                    ev = map (evidence_dict d c) groups \<and>
                    bridge_evidence_query flows d c filt lim groups
                    \<longrightarrow> briefing_text r
                          = fallback_summary (runtime_of ?w) (py_str (runtime_of ?w) (resp_day r))
                              (map (evidence_dict d c) (take 5 groups)) why)"
      using t h by blast
    have pre: "[] = (case anoms_job ?w of Inl e \<Rightarrow> [] | Inr found \<Rightarrow> map bridge found) \<and>
             (if ([]::pystr option list) \<noteq> []
              then None = Some [] \<and> (20::nat) = 200 \<and>
                   ascii ''No significant anomaly'' = ascii ''Anomaly detected but model failed (fallback)''
              else (None::pystr option list option) = None \<and> (20::nat) = 20 \<and>
                   ascii ''No significant anomaly'' = ascii ''No significant anomaly'') \<and>
             (evidence_job ?w None 20 = Inr (map ?ed busy_groups) \<or>
              ((\<exists>e. evidence_job ?w None 20 = Inl e) \<and> map ?ed busy_groups = []))"
      using a j by simp
    have "\<forall>flows d c groups.
                    map ?ed busy_groups = map (evidence_dict d c) groups \<and>
                    bridge_evidence_query flows d c None 20 groups
                    \<longrightarrow> briefing_text r
                          = fallback_summary (runtime_of ?w) (py_str (runtime_of ?w) (resp_day r))
                              (map (evidence_dict d c) (take 5 groups))
                              (ascii ''No significant anomaly'')"
      using spec [rule_format, OF pre] by blast
    then show ?thesis using busy_evidence_query by blast
  qed
  then have tx1: "briefing_text r
          = fallback_summary example_runtime (ascii ''2024-01-15'')
              (map ?ed (take 5 busy_groups)) (ascii ''No significant anomaly'')"
    unfolding rt day by simp
  have n: "map ?ed (take 5 busy_groups) \<noteq> []" by (simp add: busy_groups_def)
  have l: "take 5 (map ?ed (take 5 busy_groups)) = map ?ed (take 5 busy_groups)"
    by (simp add: busy_groups_def)
  have "fallback_summary example_runtime (ascii ''2024-01-15'')
              (map ?ed (take 5 busy_groups)) (ascii ''No significant anomaly'')
     = ascii ''[Cross-Chain Flow Briefing | '' @ ascii ''2024-01-15'' @ ascii '']'' @ [10] @
       ascii ''Conclusion: '' @ ascii ''No significant anomaly'' @ ascii ''.'' @ [10] @
       (ascii ''Top flows:'' @ [10] @
        py_join [10] (map (fallback_item example_runtime) (map ?ed (take 5 busy_groups)))) @
       [10] @ fallback_tail"
    using t n l by simp
  then have "fallback_summary example_runtime (ascii ''2024-01-15'')
              (map ?ed (take 5 busy_groups)) (ascii ''No significant anomaly'')
          = ascii ''[Cross-Chain Flow Briefing | 2024-01-15]'' @ [10] @
            ascii ''Conclusion: No significant anomaly.'' @ [10] @
            ascii ''Top flows:'' @ [10] @
            ascii ''- ethereum/across USDC: net'' @ [8776] @ ascii ''60.0, tx=3, wallets=2'' @ [10] @
            ascii ''- ethereum/synapse DAI: net'' @ [8776] @ ascii ''-50.0, tx=4, wallets=3'' @ [10] @
            ascii ''- ethereum/hop ETH: net'' @ [8776] @ ascii ''-40.0, tx=1, wallets=1'' @ [10] @
            ascii ''- ethereum/celer WETH: net'' @ [8776] @ ascii ''30.0, tx=6, wallets=5'' @ [10] @
            ascii ''- ethereum/stargate USDT: net'' @ [8776] @ ascii ''20.0, tx=2, wallets=2'' @ [10] @
            fallback_tail"
    unfolding busy_items py_join5 by (simp add: ascii_def)
  then have tx2: "briefing_text r
          = ascii ''[Cross-Chain Flow Briefing | 2024-01-15]'' @ [10] @
            ascii ''Conclusion: No significant anomaly.'' @ [10] @
            ascii ''Top flows:'' @ [10] @
            ascii ''- ethereum/across USDC: net'' @ [8776] @ ascii ''60.0, tx=3, wallets=2'' @ [10] @
            ascii ''- ethereum/synapse DAI: net'' @ [8776] @ ascii ''-50.0, tx=4, wallets=3'' @ [10] @
            ascii ''- ethereum/hop ETH: net'' @ [8776] @ ascii ''-40.0, tx=1, wallets=1'' @ [10] @
            ascii ''- ethereum/celer WETH: net'' @ [8776] @ ascii ''30.0, tx=6, wallets=5'' @ [10] @
            ascii ''- ethereum/stargate USDT: net'' @ [8776] @ ascii ''20.0, tx=2, wallets=2'' @ [10] @
            fallback_tail"
    using tx1 by simp
  show ?thesis using busy_evidence_query len g j r fbk tx2 by blast
qed

end
